theory Spec2Isabelle
  imports Main "HOL-Library.Char_ord" "HOL-Library.List_Lexorder"
begin

section \<open>Data model (src/types/models.ts)\<close>

text \<open>
  Strings are lists of 8-bit characters; the development is about ASCII text (only the
  letters A-Z and a-z change under case conversion). A \<open>Date\<close> is a number of
  milliseconds. An optional field \<open>f?: t\<close> is a field of type \<open>t option\<close>, with
  \<open>None\<close> for \<open>undefined\<close>.
\<close>

type_synonym UUID = string
type_synonym Date = int

record SyncMetadata =
  version :: int
  syncedAt :: "Date option"
  isDeleted :: "bool option"
  lastModifiedBy :: "string option"

text \<open>
  \<open>SyncableEntity extends BaseEntity\<close>: the four fields every stored record has. The
  remaining part of the record (\<open>body\<close>) holds the fields of the entity type, that is
  \<open>Omit<T, 'id' | 'createdAt' | 'updatedAt' | 'sync'>\<close>.
\<close>

record SyncableEntity =
  id' :: UUID
  createdAt :: Date
  updatedAt :: Date
  sync :: SyncMetadata

abbreviation body :: "'m SyncableEntity_scheme \<Rightarrow> 'm" where
  "body e \<equiv> SyncableEntity.more e"

record NoteFields =
  title :: string
  content :: string
  tags :: "UUID list"
  backlinks :: "UUID list"
  attachments :: "UUID list option"
  isArchived :: "bool option"
  isPinned :: "bool option"
  folderId :: "UUID option"

record TagFields =
  name :: string
  color :: "string option"
  description :: "string option"
  parentId :: "UUID option"
  isSystemTag :: "bool option"

datatype LinkType = wiki | reference | embed

record Position =
  start :: nat
  end' :: nat

record BacklinkFields =
  sourceNoteId :: UUID
  targetNoteId :: UUID
  linkType :: LinkType
  context' :: "string option"
  position :: "Position option"

type_synonym Note = "NoteFields SyncableEntity_scheme"
type_synonym Tag = "TagFields SyncableEntity_scheme"
type_synonym Backlink = "BacklinkFields SyncableEntity_scheme"

subsection \<open>Update patches: \<open>Partial<T>\<close>\<close>

text \<open>
  A patch has an optional entry for every field of \<open>T\<close>: \<open>None\<close> when the key is
  absent from the patch object. For a field that is itself optional, \<open>Some None\<close> is the
  key present with the value \<open>undefined\<close>.
\<close>

record PartialSyncable =
  p_id :: "UUID option"
  p_createdAt :: "Date option"
  p_updatedAt :: "Date option"
  p_sync :: "SyncMetadata option"

abbreviation p_body :: "'p PartialSyncable_scheme \<Rightarrow> 'p" where
  "p_body u \<equiv> PartialSyncable.more u"

record PartialNoteFields =
  p_title :: "string option"
  p_content :: "string option"
  p_tags :: "UUID list option"
  p_backlinks :: "UUID list option"
  p_attachments :: "UUID list option option"
  p_isArchived :: "bool option option"
  p_isPinned :: "bool option option"
  p_folderId :: "UUID option option"

record PartialTagFields =
  p_name :: "string option"
  p_color :: "string option option"
  p_description :: "string option option"
  p_parentId :: "UUID option option"
  p_isSystemTag :: "bool option option"

record PartialBacklinkFields =
  p_sourceNoteId :: "UUID option"
  p_targetNoteId :: "UUID option"
  p_linkType :: "LinkType option"
  p_context :: "string option option"
  p_position :: "Position option option"

text \<open>One key of an object spread \<open>{...current, ...updates}\<close>: the patch's entry wins.\<close>

definition spreadKey :: "'a \<Rightarrow> 'a option \<Rightarrow> 'a" where
  "spreadKey cur upd = (case upd of None \<Rightarrow> cur | Some v \<Rightarrow> v)"

definition spreadNote :: "NoteFields \<Rightarrow> PartialNoteFields \<Rightarrow> NoteFields" where
  "spreadNote n u =
     \<lparr>title = spreadKey (title n) (p_title u),
      content = spreadKey (content n) (p_content u),
      tags = spreadKey (tags n) (p_tags u),
      backlinks = spreadKey (backlinks n) (p_backlinks u),
      attachments = spreadKey (attachments n) (p_attachments u),
      isArchived = spreadKey (isArchived n) (p_isArchived u),
      isPinned = spreadKey (isPinned n) (p_isPinned u),
      folderId = spreadKey (folderId n) (p_folderId u)\<rparr>"

definition spreadTag :: "TagFields \<Rightarrow> PartialTagFields \<Rightarrow> TagFields" where
  "spreadTag t u =
     \<lparr>name = spreadKey (name t) (p_name u),
      color = spreadKey (color t) (p_color u),
      description = spreadKey (description t) (p_description u),
      parentId = spreadKey (parentId t) (p_parentId u),
      isSystemTag = spreadKey (isSystemTag t) (p_isSystemTag u)\<rparr>"

definition spreadBacklink :: "BacklinkFields \<Rightarrow> PartialBacklinkFields \<Rightarrow> BacklinkFields" where
  "spreadBacklink b u =
     \<lparr>sourceNoteId = spreadKey (sourceNoteId b) (p_sourceNoteId u),
      targetNoteId = spreadKey (targetNoteId b) (p_targetNoteId u),
      linkType = spreadKey (linkType b) (p_linkType u),
      context' = spreadKey (context' b) (p_context u),
      position = spreadKey (position b) (p_position u)\<rparr>"

section \<open>The browser database and its environment\<close>

text \<open>
  An object store is the list of its records in the order a cursor visits them: ascending
  primary key (\<open>keyPath: 'id'\<close>), strings compared code unit by code unit.
\<close>

record IDBDatabase =
  notesStore :: "Note list"
  tagsStore :: "Tag list"
  backlinksStore :: "Backlink list"

text \<open>
  The world an operation runs in: whether \<open>this.db\<close> is set, the stored data, and the
  values the environment will hand out: \<open>uuids w 0\<close> is the next result of
  \<open>crypto.randomUUID()\<close>, \<open>clock w 0\<close> the next result of \<open>new Date()\<close>, and
  \<open>randoms w 0\<close> the next result of \<open>Math.floor(Math.random() * 10)\<close>.
\<close>

record World =
  opened :: bool
  idb :: IDBDatabase
  uuids :: "nat \<Rightarrow> UUID"
  clock :: "nat \<Rightarrow> Date"
  randoms :: "nat \<Rightarrow> nat"

definition randomUUID :: "World \<Rightarrow> UUID \<times> World" where
  "randomUUID w = (uuids w 0, w\<lparr>uuids := (\<lambda>n. uuids w (Suc n))\<rparr>)"

definition newDate :: "World \<Rightarrow> Date \<times> World" where
  "newDate w = (clock w 0, w\<lparr>clock := (\<lambda>n. clock w (Suc n))\<rparr>)"

definition randomIndex :: "World \<Rightarrow> nat \<times> World" where
  "randomIndex w = (randoms w 0 mod 10, w\<lparr>randoms := (\<lambda>n. randoms w (Suc n))\<rparr>)"

subsection \<open>Errors (src/unnamed/part_002, the storage types)\<close>

datatype StorageErrorCodes =
    DATABASE_OPEN_FAILED
  | TRANSACTION_FAILED
  | OBJECT_STORE_NOT_FOUND
  | KEY_NOT_FOUND
  | INVALID_DATA
  | QUOTA_EXCEEDED
  | UNKNOWN_ERROR

text \<open>
  What an operation can throw: a \<open>StorageError\<close> with its code, the \<open>NotFoundError\<close>
  of \<open>store.index\<close> on an index that does not exist, the \<open>SyntaxError\<close> of
  \<open>new RegExp\<close>, and \<open>UnsupportedPattern\<close> for a regular expression outside the
  fragment of the pattern language that this development gives a meaning to.
\<close>

datatype error =
    StorageError StorageErrorCodes
  | NotFoundError
  | SyntaxError
  | UnsupportedPattern

type_synonym 'a result = "(error + 'a) \<times> World"

subsection \<open>Keys, indices and collections\<close>

text \<open>
  The values IndexedDB accepts as keys. A boolean or \<open>undefined\<close> is not a key: a record
  whose index key path holds one is not in that index.
\<close>

datatype IDBKey = KNumber int | KDate Date | KString string | KArray "IDBKey list"

text \<open>The only range the repository builds is \<open>IDBKeyRange.only(k)\<close>.\<close>

datatype IDBKeyRange = only IDBKey

datatype IDBCursorDirection = next' | nextunique | prev | prevunique

record 'm IndexConfig =
  indexName :: string
  keyOf :: "'m SyncableEntity_scheme \<Rightarrow> IDBKey option"
  unique :: bool

text \<open>
  A collection stands for the \<open>storeName\<close> argument of the generic operations together
  with their type argument \<open>T\<close>: where the store lives in the database, its indices as
  \<open>BrainStorage\<close>'s constructor configures them, and how an object spread acts on the
  fields of \<open>T\<close>.
\<close>

record ('m, 'p) Collection =
  readStore :: "IDBDatabase \<Rightarrow> 'm SyncableEntity_scheme list"
  writeStore :: "'m SyncableEntity_scheme list \<Rightarrow> IDBDatabase \<Rightarrow> IDBDatabase"
  indices :: "'m IndexConfig list"
  spread :: "'m \<Rightarrow> 'p \<Rightarrow> 'm"

text \<open>
  The \<open>tags\<close> index of the notes store is created without \<open>multiEntry\<close>
  (\<open>createObjectStores\<close> passes only \<open>unique\<close>), so its key is the whole array.
\<close>

definition notesC :: "(NoteFields, PartialNoteFields) Collection" where
  "notesC =
     \<lparr>readStore = notesStore,
      writeStore = (\<lambda>os d. d\<lparr>notesStore := os\<rparr>),
      indices =
        [\<lparr>indexName = ''createdAt'', keyOf = (\<lambda>e. Some (KDate (createdAt e))), unique = False\<rparr>,
         \<lparr>indexName = ''updatedAt'', keyOf = (\<lambda>e. Some (KDate (updatedAt e))), unique = False\<rparr>,
         \<lparr>indexName = ''isArchived'', keyOf = (\<lambda>e. None), unique = False\<rparr>,
         \<lparr>indexName = ''isPinned'', keyOf = (\<lambda>e. None), unique = False\<rparr>,
         \<lparr>indexName = ''tags'', keyOf = (\<lambda>e. Some (KArray (map KString (tags (body e))))),
          unique = False\<rparr>],
      spread = spreadNote\<rparr>"

definition tagsC :: "(TagFields, PartialTagFields) Collection" where
  "tagsC =
     \<lparr>readStore = tagsStore,
      writeStore = (\<lambda>os d. d\<lparr>tagsStore := os\<rparr>),
      indices =
        [\<lparr>indexName = ''name'', keyOf = (\<lambda>e. Some (KString (name (body e)))), unique = True\<rparr>,
         \<lparr>indexName = ''createdAt'', keyOf = (\<lambda>e. Some (KDate (createdAt e))), unique = False\<rparr>],
      spread = spreadTag\<rparr>"

fun linkTypeString :: "LinkType \<Rightarrow> string" where
  "linkTypeString wiki = ''wiki''"
| "linkTypeString reference = ''reference''"
| "linkTypeString embed = ''embed''"

definition backlinksC :: "(BacklinkFields, PartialBacklinkFields) Collection" where
  "backlinksC =
     \<lparr>readStore = backlinksStore,
      writeStore = (\<lambda>os d. d\<lparr>backlinksStore := os\<rparr>),
      indices =
        [\<lparr>indexName = ''sourceNoteId'', keyOf = (\<lambda>e. Some (KString (sourceNoteId (body e)))),
          unique = False\<rparr>,
         \<lparr>indexName = ''targetNoteId'', keyOf = (\<lambda>e. Some (KString (targetNoteId (body e)))),
          unique = False\<rparr>,
         \<lparr>indexName = ''linkType'',
          keyOf = (\<lambda>e. Some (KString (linkTypeString (linkType (body e))))), unique = False\<rparr>],
      spread = spreadBacklink\<rparr>"

subsection \<open>Object store requests\<close>

definition os_get :: "'m SyncableEntity_scheme list \<Rightarrow> UUID \<Rightarrow> 'm SyncableEntity_scheme option" where
  "os_get os k = find (\<lambda>e. id' e = k) os"

text \<open>
  A write violates a unique index when another record (one with a different primary key)
  has the same key in that index.
\<close>

definition violatesUnique ::
  "'m IndexConfig list \<Rightarrow> 'm SyncableEntity_scheme list \<Rightarrow> 'm SyncableEntity_scheme \<Rightarrow> bool" where
  "violatesUnique ixs os e =
     (\<exists>ix \<in> set ixs. unique ix \<and> keyOf ix e \<noteq> None \<and>
        (\<exists>x \<in> set os. id' x \<noteq> id' e \<and> keyOf ix x = keyOf ix e))"

text \<open>\<open>store.add\<close>: fails (\<open>None\<close>) on an existing primary key or a unique index.\<close>

definition os_add ::
  "'m IndexConfig list \<Rightarrow> 'm SyncableEntity_scheme list \<Rightarrow> 'm SyncableEntity_scheme \<Rightarrow>
   'm SyncableEntity_scheme list option" where
  "os_add ixs os e =
     (if os_get os (id' e) \<noteq> None \<or> violatesUnique ixs os e then None
      else Some (insort_key id' e os))"

text \<open>\<open>store.put\<close>: replaces the record with the same primary key, or inserts.\<close>

definition os_put ::
  "'m IndexConfig list \<Rightarrow> 'm SyncableEntity_scheme list \<Rightarrow> 'm SyncableEntity_scheme \<Rightarrow>
   'm SyncableEntity_scheme list option" where
  "os_put ixs os e =
     (if violatesUnique ixs os e then None
      else Some (insort_key id' e (filter (\<lambda>x. id' x \<noteq> id' e) os)))"

definition os_delete :: "'m SyncableEntity_scheme list \<Rightarrow> UUID \<Rightarrow> 'm SyncableEntity_scheme list" where
  "os_delete os k = filter (\<lambda>x. id' x \<noteq> k) os"

section \<open>Entity store: \<open>IndexedDBStorage\<close> (src/unnamed/part_000)\<close>

definition create :: "World \<Rightarrow> ('m, 'p) Collection \<Rightarrow> 'm \<Rightarrow> 'm SyncableEntity_scheme result" where
  "create w c data =
     (if \<not> opened w then (Inl (StorageError DATABASE_OPEN_FAILED), w)
      else
        let (now, w1) = newDate w;
            (uid, w2) = randomUUID w1;
            entity = \<lparr>id' = uid, createdAt = now, updatedAt = now,
                      sync = \<lparr>version = 1, syncedAt = None, isDeleted = Some False,
                               lastModifiedBy = None\<rparr>,
                      \<dots> = data\<rparr>
        in case os_add (indices c) (readStore c (idb w2)) entity of
             None \<Rightarrow> (Inl (StorageError TRANSACTION_FAILED), w2)
           | Some os \<Rightarrow> (Inr entity, w2\<lparr>idb := writeStore c os (idb w2)\<rparr>))"

definition get :: "World \<Rightarrow> ('m, 'p) Collection \<Rightarrow> UUID \<Rightarrow> 'm SyncableEntity_scheme option result" where
  "get w c k =
     (if \<not> opened w then (Inl (StorageError DATABASE_OPEN_FAILED), w)
      else (Inr (os_get (readStore c (idb w)) k), w))"

record QueryOptions =
  index :: "string option"
  range' :: "IDBKeyRange option"
  direction :: "IDBCursorDirection option"
  limit :: "int option"
  offset :: "int option"

definition noOptions :: QueryOptions where
  "noOptions = \<lparr>index = None, range' = None, direction = None, limit = None, offset = None\<rparr>"

text \<open>
  The records a cursor visits, in order. On the store: every record, by ascending key, or
  descending for \<open>prev\<close> and \<open>prevunique\<close>. On an index with the range \<open>only k\<close>: the
  records whose index key is \<open>k\<close>, by ascending primary key; the unique directions visit
  only the first of them.
\<close>

definition inDirection :: "IDBCursorDirection option \<Rightarrow> 'a list \<Rightarrow> 'a list" where
  "inDirection d xs = (if d = Some prev \<or> d = Some prevunique then rev xs else xs)"

definition indexCursor ::
  "'m IndexConfig \<Rightarrow> IDBKeyRange \<Rightarrow> IDBCursorDirection option \<Rightarrow>
   'm SyncableEntity_scheme list \<Rightarrow> 'm SyncableEntity_scheme list" where
  "indexCursor ix r d os =
     (case r of only k \<Rightarrow>
        let hits = filter (\<lambda>e. keyOf ix e = Some k) os
        in if d = Some nextunique \<or> d = Some prevunique then take 1 hits
           else inDirection d hits)"

definition openCursor ::
  "('m, 'p) Collection \<Rightarrow> IDBDatabase \<Rightarrow> QueryOptions \<Rightarrow> error + 'm SyncableEntity_scheme list" where
  "openCursor c d options =
     (case (index options, range' options) of
        (Some i, Some r) \<Rightarrow>
          if i = [] then Inr (inDirection (direction options) (readStore c d))
          else (case find (\<lambda>ix. indexName ix = i) (indices c) of
                  None \<Rightarrow> Inl NotFoundError
                | Some ix \<Rightarrow> Inr (indexCursor ix r (direction options) (readStore c d)))
      | _ \<Rightarrow> Inr (inDirection (direction options) (readStore c d)))"

text \<open>
  The two tests of the \<open>onsuccess\<close> handler of \<open>getAll\<close>, for the counter's value
  \<open>count\<close>: \<open>!options.limit || count < options.limit\<close> and
  \<open>!options.offset || count >= options.offset\<close>. A missing number and 0 are falsy;
  numbers are integers here.
\<close>

definition underLimit :: "int option \<Rightarrow> nat \<Rightarrow> bool" where
  "underLimit lim count = (case lim of None \<Rightarrow> True | Some l \<Rightarrow> l = 0 \<or> int count < l)"

definition pastOffset :: "int option \<Rightarrow> nat \<Rightarrow> bool" where
  "pastOffset off count = (case off of None \<Rightarrow> True | Some k \<Rightarrow> k = 0 \<or> k \<le> int count)"

text \<open>
  The handler, once per record the cursor visits; \<open>count\<close> and \<open>results\<close> are its two
  variables. It stops at the end of the cursor or when the limit test fails.
\<close>

fun cursorLoop :: "int option \<Rightarrow> int option \<Rightarrow> 'a list \<Rightarrow> nat \<Rightarrow> 'a list \<Rightarrow> 'a list" where
  "cursorLoop lim off [] count results = results"
| "cursorLoop lim off (v # cursor) count results =
     (if underLimit lim count then
        cursorLoop lim off cursor (count + 1)
          (if pastOffset off count then results @ [v] else results)
      else results)"

definition getAll ::
  "World \<Rightarrow> ('m, 'p) Collection \<Rightarrow> QueryOptions \<Rightarrow> 'm SyncableEntity_scheme list result" where
  "getAll w c options =
     (if \<not> opened w then (Inl (StorageError DATABASE_OPEN_FAILED), w)
      else case openCursor c (idb w) options of
             Inl e \<Rightarrow> (Inl e, w)
           | Inr cursor \<Rightarrow> (Inr (cursorLoop (limit options) (offset options) cursor 0 []), w))"

text \<open>
  \<open>update\<close>: the merged object is \<open>{...current, ...updates, updatedAt: new Date(),
  sync: {...current.sync, version: current.sync.version + 1}}\<close>; the last two keys are
  written after the two spreads.
\<close>

definition spreadEntity ::
  "('m, 'p) Collection \<Rightarrow> 'm SyncableEntity_scheme \<Rightarrow> 'p PartialSyncable_scheme \<Rightarrow>
   'm SyncableEntity_scheme" where
  "spreadEntity c current updates =
     \<lparr>id' = spreadKey (id' current) (p_id updates),
      createdAt = spreadKey (createdAt current) (p_createdAt updates),
      updatedAt = spreadKey (updatedAt current) (p_updatedAt updates),
      sync = spreadKey (sync current) (p_sync updates),
      \<dots> = spread c (body current) (p_body updates)\<rparr>"

definition merged ::
  "('m, 'p) Collection \<Rightarrow> 'm SyncableEntity_scheme \<Rightarrow> 'p PartialSyncable_scheme \<Rightarrow> Date \<Rightarrow>
   'm SyncableEntity_scheme" where
  "merged c current updates now =
     (spreadEntity c current updates)
       \<lparr>updatedAt := now,
        sync := (sync current)\<lparr>version := version (sync current) + 1\<rparr>\<rparr>"

definition update ::
  "World \<Rightarrow> ('m, 'p) Collection \<Rightarrow> UUID \<Rightarrow> 'p PartialSyncable_scheme \<Rightarrow>
   'm SyncableEntity_scheme result" where
  "update w c k updates =
     (if \<not> opened w then (Inl (StorageError DATABASE_OPEN_FAILED), w)
      else case os_get (readStore c (idb w)) k of
             None \<Rightarrow> (Inl (StorageError KEY_NOT_FOUND), w)
           | Some current \<Rightarrow>
               let (now, w1) = newDate w;
                   updated = merged c current updates now
               in case os_put (indices c) (readStore c (idb w1)) updated of
                    None \<Rightarrow> (Inl (StorageError TRANSACTION_FAILED), w1)
                  | Some os \<Rightarrow> (Inr updated, w1\<lparr>idb := writeStore c os (idb w1)\<rparr>))"

definition delete :: "World \<Rightarrow> ('m, 'p) Collection \<Rightarrow> UUID \<Rightarrow> unit result" where
  "delete w c k =
     (if \<not> opened w then (Inl (StorageError DATABASE_OPEN_FAILED), w)
      else (Inr (), w\<lparr>idb := writeStore c (os_delete (readStore c (idb w)) k) (idb w)\<rparr>))"

section \<open>Domain storage facade: \<open>BrainStorage\<close> (src/lib/storage/index.ts)\<close>

text \<open>
  The argument of \<open>createNote\<close>. Its type requires \<open>tags\<close> and \<open>backlinks\<close>; the code
  provides for their absence with \<open>||\<close>, so here the two keys may be missing.
\<close>

record NoteData =
  d_title :: string
  d_content :: string
  d_tags :: "UUID list option"
  d_backlinks :: "UUID list option"
  d_attachments :: "UUID list option"
  d_isArchived :: "bool option"
  d_isPinned :: "bool option"
  d_folderId :: "UUID option"

text \<open>\<open>x || []\<close> on an array (every array is truthy) and \<open>x || false\<close> on a boolean.\<close>

definition orEmpty :: "'a list option \<Rightarrow> 'a list" where
  "orEmpty x = (case x of None \<Rightarrow> [] | Some xs \<Rightarrow> xs)"

definition orFalse :: "bool option \<Rightarrow> bool" where
  "orFalse x = (case x of None \<Rightarrow> False | Some b \<Rightarrow> b)"

text \<open>\<open>x || d\<close> on a string: the empty string is falsy.\<close>

definition orString :: "string option \<Rightarrow> string \<Rightarrow> string" where
  "orString x d = (case x of None \<Rightarrow> d | Some s \<Rightarrow> if s = [] then d else s)"

definition createNote :: "World \<Rightarrow> NoteData \<Rightarrow> Note result" where
  "createNote w noteData =
     create w notesC
       \<lparr>title = d_title noteData,
        content = d_content noteData,
        tags = orEmpty (d_tags noteData),
        backlinks = orEmpty (d_backlinks noteData),
        attachments = d_attachments noteData,
        isArchived = Some (orFalse (d_isArchived noteData)),
        isPinned = Some (orFalse (d_isPinned noteData)),
        folderId = d_folderId noteData\<rparr>"

definition getNote :: "World \<Rightarrow> UUID \<Rightarrow> Note option result" where
  "getNote w k = get w notesC k"

record NoteQueryOptions = QueryOptions +
  q_tags :: "UUID list option"
  q_isArchived :: "bool option"
  q_isPinned :: "bool option"
  searchTerm :: "string option"

definition noNoteOptions :: NoteQueryOptions where
  "noNoteOptions =
     \<lparr>index = None, range' = None, direction = None, limit = None, offset = None,
      q_tags = None, q_isArchived = None, q_isPinned = None, searchTerm = None\<rparr>"

definition toLowerChar :: "char \<Rightarrow> char" where
  "toLowerChar c =
     (case map_of (zip ''ABCDEFGHIJKLMNOPQRSTUVWXYZ'' ''abcdefghijklmnopqrstuvwxyz'') c of
        None \<Rightarrow> c
      | Some l \<Rightarrow> l)"

definition toLowerCase :: "string \<Rightarrow> string" where
  "toLowerCase s = map toLowerChar s"

text \<open>\<open>s.includes(t)\<close>: \<open>t\<close> occurs in \<open>s\<close> as a contiguous substring.\<close>

fun includes' :: "string \<Rightarrow> string \<Rightarrow> bool" where
  "includes' [] t = (t = [])"
| "includes' (c # cs) t = (take (length t) (c # cs) = t \<or> includes' cs t)"

definition getAllNotes :: "World \<Rightarrow> NoteQueryOptions \<Rightarrow> Note list result" where
  "getAllNotes w options =
     (case getAll w notesC
             \<lparr>index = None, range' = None,
              direction = Some (case direction options of None \<Rightarrow> next' | Some d \<Rightarrow> d),
              limit = limit options, offset = offset options\<rparr> of
        (Inl e, w1) \<Rightarrow> (Inl e, w1)
      | (Inr all, w1) \<Rightarrow>
          let byTags =
                (case q_tags options of
                   None \<Rightarrow> all
                 | Some ts \<Rightarrow>
                     if length ts > 0
                     then filter (\<lambda>note. \<exists>tagId \<in> set ts. tagId \<in> set (tags (body note))) all
                     else all);
              byArchived =
                (case q_isArchived options of
                   None \<Rightarrow> byTags
                 | Some b \<Rightarrow> filter (\<lambda>note. isArchived (body note) = Some b) byTags);
              byPinned =
                (case q_isPinned options of
                   None \<Rightarrow> byArchived
                 | Some b \<Rightarrow> filter (\<lambda>note. isPinned (body note) = Some b) byArchived);
              bySearch =
                (case searchTerm options of
                   None \<Rightarrow> byPinned
                 | Some s \<Rightarrow>
                     if s = [] then byPinned
                     else filter (\<lambda>note. includes' (toLowerCase (title (body note))) (toLowerCase s) \<or>
                                          includes' (toLowerCase (content (body note))) (toLowerCase s))
                            byPinned)
          in (Inr bySearch, w1))"

text \<open>
  The patches the facade accepts, \<open>Partial<Omit<T, 'id' | 'createdAt' | 'sync'>>\<close>:
  \<open>updatedAt\<close> and the fields of the entity type.
\<close>

record FacadeUpdates =
  u_updatedAt :: "Date option"

definition toPartial :: "'p FacadeUpdates_scheme \<Rightarrow> 'p PartialSyncable_scheme" where
  "toPartial u =
     \<lparr>p_id = None, p_createdAt = None, p_updatedAt = u_updatedAt u, p_sync = None,
      \<dots> = FacadeUpdates.more u\<rparr>"

definition updateNote :: "World \<Rightarrow> UUID \<Rightarrow> PartialNoteFields FacadeUpdates_scheme \<Rightarrow> Note result" where
  "updateNote w k updates = update w notesC k (toPartial updates)"

definition deleteNote :: "World \<Rightarrow> UUID \<Rightarrow> unit result" where
  "deleteNote w k = delete w notesC k"

definition createTag :: "World \<Rightarrow> TagFields \<Rightarrow> Tag result" where
  "createTag w tagData =
     (case getAll w tagsC
             (noOptions\<lparr>index := Some ''name'', range' := Some (only (KString (name tagData)))\<rparr>) of
        (Inl e, w1) \<Rightarrow> (Inl e, w1)
      | (Inr existingTags, w1) \<Rightarrow>
          (case existingTags of
             t # _ \<Rightarrow> (Inr t, w1)
           | [] \<Rightarrow>
               create w1 tagsC
                 \<lparr>name = name tagData,
                  color = Some (orString (color tagData) ''#3b82f6''),
                  description = Some (orString (description tagData) []),
                  parentId = (case parentId tagData of
                                None \<Rightarrow> None
                              | Some p \<Rightarrow> if p = [] then None else Some p),
                  isSystemTag = Some (orFalse (isSystemTag tagData))\<rparr>))"

definition getTag :: "World \<Rightarrow> UUID \<Rightarrow> Tag option result" where
  "getTag w k = get w tagsC k"

definition getAllTags :: "World \<Rightarrow> Tag list result" where
  "getAllTags w = getAll w tagsC noOptions"

definition updateTag :: "World \<Rightarrow> UUID \<Rightarrow> PartialTagFields FacadeUpdates_scheme \<Rightarrow> Tag result" where
  "updateTag w k updates = update w tagsC k (toPartial updates)"


definition createBacklink :: "World \<Rightarrow> BacklinkFields \<Rightarrow> Backlink result" where
  "createBacklink w backlinkData = create w backlinksC backlinkData"

definition getAllBacklinks :: "World \<Rightarrow> Backlink list result" where
  "getAllBacklinks w = getAll w backlinksC noOptions"

definition deleteBacklink :: "World \<Rightarrow> UUID \<Rightarrow> unit result" where
  "deleteBacklink w k = delete w backlinksC k"

definition getBacklinksForNote :: "World \<Rightarrow> UUID \<Rightarrow> Backlink list result" where
  "getBacklinksForNote w noteId =
     (case getAll w backlinksC
             (noOptions\<lparr>index := Some ''sourceNoteId'', range' := Some (only (KString noteId))\<rparr>) of
        (Inl e, w1) \<Rightarrow> (Inl e, w1)
      | (Inr sourceBacklinks, w1) \<Rightarrow>
          (case getAll w1 backlinksC
                  (noOptions\<lparr>index := Some ''targetNoteId'',
                             range' := Some (only (KString noteId))\<rparr>) of
             (Inl e, w2) \<Rightarrow> (Inl e, w2)
           | (Inr targetBacklinks, w2) \<Rightarrow> (Inr (sourceBacklinks @ targetBacklinks), w2)))"

section \<open>Tag sync (src/unnamed/part_003)\<close>








text \<open>The empty patch \<open>{}\<close> on the fields of a note.\<close>

definition noNoteFields :: PartialNoteFields where
  "noNoteFields =
     \<lparr>p_title = None, p_content = None, p_tags = None, p_backlinks = None,
      p_attachments = None, p_isArchived = None, p_isPinned = None, p_folderId = None\<rparr>"


section \<open>Backlink sync (src/lib/backlinks.ts)\<close>

record WikiLink =
  l_title :: string
  l_position :: Position
  l_context :: string

text \<open>
  The successive matches of the global pattern \<open>/\[\[([^\]]+)\]\]/g\<close>, each as
  \<open>(match.index, match[1])\<close>; \<open>match[0]\<close> is four characters longer than the group.
  The group takes the longest run of characters other than \<open>]\<close>; a shorter run would
  be followed by a character of the run, never by \<open>]]\<close>, so the match at a position
  succeeds exactly when that run is not empty and \<open>]]\<close> follows it. The first argument
  is the index of the string's first character in \<open>content\<close>.
\<close>

function wikiLinkMatches :: "nat \<Rightarrow> string \<Rightarrow> (nat \<times> string) list" where
  "wikiLinkMatches i [] = []"
| "wikiLinkMatches i (c # cs) =
     (let inner = takeWhile (\<lambda>x. x \<noteq> CHR '']'') (drop 1 cs);
          after = dropWhile (\<lambda>x. x \<noteq> CHR '']'') (drop 1 cs)
      in if c = CHR ''['' \<and> take 1 cs = ''['' \<and> inner \<noteq> [] \<and> take 2 after = '']]''
         then (i, inner) # wikiLinkMatches (i + length inner + 4) (drop 2 after)
         else wikiLinkMatches (i + 1) cs)"
  by pat_completeness auto
termination
proof (relation "measure (\<lambda>(i, s). length s)")
  show "wf (measure (\<lambda>(i, s). length s))"
    by simp
next
  fix i :: nat and c :: char and cs inner after :: string
  assume "after = dropWhile (\<lambda>x. x \<noteq> CHR '']'') (drop 1 cs)"
  then have "length after \<le> length cs"
    using length_dropWhile_le [of "\<lambda>x. x \<noteq> CHR '']''" "drop 1 cs"] by simp
  then show "((i + length inner + 4, drop 2 after), (i, c # cs)) \<in> measure (\<lambda>(i, s). length s)"
    by simp
next
  fix i :: nat and c :: char and cs :: string
  show "((i + 1, cs), (i, c # cs)) \<in> measure (\<lambda>(i, s). length s)"
    by simp
qed

text \<open>\<open>String.prototype.trim\<close>, on ASCII white space.\<close>

definition whiteSpace :: "char \<Rightarrow> bool" where
  "whiteSpace c = (c \<in> set [CHR 0x09, CHR 0x0A, CHR 0x0B, CHR 0x0C, CHR 0x0D, CHR '' ''])"

definition trim :: "string \<Rightarrow> string" where
  "trim s = rev (dropWhile whiteSpace (rev (dropWhile whiteSpace s)))"

text \<open>
  \<open>s.substring(a, b)\<close> for \<open>a \<le> b\<close>. In \<open>extractWikiLinksFromContent\<close> below,
  \<open>start - 50\<close> on natural numbers is \<open>Math.max(0, start - 50)\<close>.
\<close>

definition substring :: "string \<Rightarrow> nat \<Rightarrow> nat \<Rightarrow> string" where
  "substring s a b = take (b - a) (drop a s)"

definition extractWikiLinksFromContent :: "string \<Rightarrow> WikiLink list" where
  "extractWikiLinksFromContent content' =
     map (\<lambda>(index, group).
            let start = index;
                end = index + (length group + 4);
                contextStart = start - 50;
                contextEnd = min (length content') (end + 50)
            in \<lparr>l_title = trim group,
                l_position = \<lparr>start = start, end' = end\<rparr>,
                l_context = substring content' contextStart contextEnd\<rparr>)
         (wikiLinkMatches 0 content')"

text \<open>The \<open>for\<close> loop of \<open>removeBacklinksFromNote\<close>.\<close>

fun deleteBacklinks :: "World \<Rightarrow> Backlink list \<Rightarrow> unit result" where
  "deleteBacklinks w [] = (Inr (), w)"
| "deleteBacklinks w (backlink # rest) =
     (case deleteBacklink w (id' backlink) of
        (Inl e, w1) \<Rightarrow> (Inl e, w1)
      | (Inr _, w1) \<Rightarrow> deleteBacklinks w1 rest)"

definition removeBacklinksFromNote :: "World \<Rightarrow> UUID \<Rightarrow> unit result" where
  "removeBacklinksFromNote w noteId =
     (case getBacklinksForNote w noteId of
        (Inl e, w1) \<Rightarrow> (Inl e, w1)
      | (Inr existingBacklinks, w1) \<Rightarrow> deleteBacklinks w1 existingBacklinks)"

definition findNoteByTitle :: "World \<Rightarrow> string \<Rightarrow> Note option result" where
  "findNoteByTitle w t =
     (case getAllNotes w noNoteOptions of
        (Inl e, w1) \<Rightarrow> (Inl e, w1)
      | (Inr allNotes, w1) \<Rightarrow>
          (case find (\<lambda>n. toLowerCase (title (body n)) = toLowerCase t) allNotes of
             Some note \<Rightarrow> (Inr (Some note), w1)
           | None \<Rightarrow>
               (Inr (find (\<lambda>n. includes' (toLowerCase (title (body n))) (toLowerCase t)) allNotes),
                w1)))"

text \<open>The \<open>for\<close> loop of \<open>syncBacklinksForNote\<close>.\<close>

fun createBacklinks :: "World \<Rightarrow> UUID \<Rightarrow> WikiLink list \<Rightarrow> unit result" where
  "createBacklinks w noteId [] = (Inr (), w)"
| "createBacklinks w noteId (link # rest) =
     (case findNoteByTitle w (l_title link) of
        (Inl e, w1) \<Rightarrow> (Inl e, w1)
      | (Inr None, w1) \<Rightarrow> createBacklinks w1 noteId rest
      | (Inr (Some targetNote), w1) \<Rightarrow>
          (case createBacklink w1
                  \<lparr>sourceNoteId = noteId, targetNoteId = id' targetNote, linkType = wiki,
                   context' = Some (l_context link), position = Some (l_position link)\<rparr> of
             (Inl e, w2) \<Rightarrow> (Inl e, w2)
           | (Inr _, w2) \<Rightarrow> createBacklinks w2 noteId rest))"

definition syncBacklinksForNote :: "World \<Rightarrow> UUID \<Rightarrow> string \<Rightarrow> unit result" where
  "syncBacklinksForNote w noteId content' =
     (let wikiLinks = extractWikiLinksFromContent content'
      in case removeBacklinksFromNote w noteId of
           (Inl e, w1) \<Rightarrow> (Inl e, w1)
         | (Inr _, w1) \<Rightarrow> createBacklinks w1 noteId wikiLinks)"

subsection \<open>Regular expressions built from a title\<close>

text \<open>
  \<open>updateBacklinksOnNoteRename\<close> builds its pattern with
  \<open>new RegExp(`\\[\\[${oldTitle}\\]\\]`, 'gi')\<close>: the title is part of the pattern's
  source text. The fragment of the pattern language given a meaning here: a character
  that is not a syntax character stands for itself, \<open>.\<close> for any character but a line
  break, a backslash in front of a syntax character for that character, and an atom may carry
  one of the greedy quantifiers \<open>?\<close>, \<open>*\<close>, \<open>+\<close>. Groups, classes, braces,
  alternation, anchors, other escapes and lazy quantifiers are outside the fragment.
\<close>

datatype atom = Lit char | AnyChar

datatype quantifier = One | Opt | Star | Plus

type_synonym pattern = "(atom \<times> quantifier) list"

definition backslash :: char where
  "backslash = CHR 0x5C"

definition syntaxCharacter :: "char \<Rightarrow> bool" where
  "syntaxCharacter c = (c = backslash \<or> c \<in> set ''^$.*+?()[]{}|/'')"

text \<open>One atom at the head of the pattern text \<open>c # cs\<close>, and the text that follows it.\<close>

definition parseAtom :: "char \<Rightarrow> string \<Rightarrow> error + (atom \<times> string)" where
  "parseAtom c cs =
     (if c = backslash then
        (case cs of
           [] \<Rightarrow> Inl SyntaxError
         | e # rest \<Rightarrow> if syntaxCharacter e then Inr (Lit e, rest) else Inl UnsupportedPattern)
      else if c = CHR ''.'' then Inr (AnyChar, cs)
      else if c \<in> set ''*+?'' then Inl SyntaxError
      else if c \<in> set ''^$()[]{}|'' then Inl UnsupportedPattern
      else Inr (Lit c, cs))"

text \<open>The quantifier that follows an atom, if any; a further \<open>?\<close> would make it lazy.\<close>

definition parseQuantifier :: "string \<Rightarrow> error + (quantifier \<times> string)" where
  "parseQuantifier s =
     (case s of
        [] \<Rightarrow> Inr (One, [])
      | q # rest \<Rightarrow>
          if q \<in> set ''?*+'' then
            (if take 1 rest = ''?'' then Inl UnsupportedPattern
             else Inr (if q = CHR ''?'' then Opt else if q = CHR ''*'' then Star else Plus, rest))
          else Inr (One, s))"

function parsePattern :: "string \<Rightarrow> error + pattern" where
  "parsePattern [] = Inr []"
| "parsePattern (c # cs) =
     (case parseAtom c cs of
        Inl e \<Rightarrow> Inl e
      | Inr (a, rest) \<Rightarrow>
          (case parseQuantifier rest of
             Inl e \<Rightarrow> Inl e
           | Inr (q, rest') \<Rightarrow>
               (case parsePattern rest' of
                  Inl e \<Rightarrow> Inl e
                | Inr ps \<Rightarrow> Inr ((a, q) # ps))))"
  by pat_completeness auto
termination
proof (relation "measure length")
  show "wf (measure length)"
    by simp
next
  fix c :: char and cs rest rest' :: string and a q x y
  assume "parseAtom c cs = Inr x" "(a, rest) = x" "parseQuantifier rest = Inr y" "(q, rest') = y"
  then have "parseAtom c cs = Inr (a, rest)" "parseQuantifier rest = Inr (q, rest')"
    by simp_all
  then have "length rest \<le> length cs" "length rest' \<le> length rest"
    by (auto simp: parseAtom_def parseQuantifier_def split: if_splits list.splits)
  then show "(rest', c # cs) \<in> measure length"
    by simp
qed

text \<open>
  With the flag \<open>i\<close> two characters match when they are equal under case
  canonicalisation; on ASCII that is equality of the lower-cased characters.
\<close>

definition atomMatches :: "atom \<Rightarrow> char \<Rightarrow> bool" where
  "atomMatches a c =
     (case a of
        Lit l \<Rightarrow> toLowerChar l = toLowerChar c
      | AnyChar \<Rightarrow> c \<noteq> CHR 0x0A \<and> c \<noteq> CHR 0x0D)"

text \<open>
  The matches of a pattern at the start of a string, each as the number of characters it
  consumes, in the order the backtracking matcher tries them: a greedy quantifier takes
  one more character first, and only then tries to stop. The matcher's result is the head.
\<close>

fun matchEnds :: "pattern \<Rightarrow> string \<Rightarrow> nat list" where
  "matchEnds [] s = [0]"
| "matchEnds ((a, One) # ps) [] = []"
| "matchEnds ((a, One) # ps) (c # cs) =
     (if atomMatches a c then map Suc (matchEnds ps cs) else [])"
| "matchEnds ((a, Opt) # ps) [] = matchEnds ps []"
| "matchEnds ((a, Opt) # ps) (c # cs) =
     (if atomMatches a c then map Suc (matchEnds ps cs) else []) @ matchEnds ps (c # cs)"
| "matchEnds ((a, Star) # ps) [] = matchEnds ps []"
| "matchEnds ((a, Star) # ps) (c # cs) =
     (if atomMatches a c then map Suc (matchEnds ((a, Star) # ps) cs) else [])
     @ matchEnds ps (c # cs)"
| "matchEnds ((a, Plus) # ps) [] = []"
| "matchEnds ((a, Plus) # ps) (c # cs) =
     (if atomMatches a c then map Suc (matchEnds ((a, Star) # ps) cs) else [])"

text \<open>\<open>regex.test(s)\<close> on a fresh global pattern: is there a match at some position?\<close>

fun test :: "pattern \<Rightarrow> string \<Rightarrow> bool" where
  "test ps [] = (matchEnds ps [] \<noteq> [])"
| "test ps (c # cs) = (matchEnds ps (c # cs) \<noteq> [] \<or> test ps cs)"

text \<open>
  The replacement text for one match (the pattern has no groups): \<open>$$\<close> is a dollar
  sign, \<open>$&\<close> the matched text, \<open>$`\<close> the text preceding the match and \<open>$'\<close> the text
  following it; any other character, a dollar sign included, stands for itself.
\<close>

fun getSubstitution :: "string \<Rightarrow> string \<Rightarrow> string \<Rightarrow> string \<Rightarrow> string" where
  "getSubstitution [] matched preceding following = []"
| "getSubstitution [c] matched preceding following = [c]"
| "getSubstitution (c # d # r) matched preceding following =
     (if c = CHR ''$'' \<and> d = CHR ''$'' then CHR ''$'' # getSubstitution r matched preceding following
      else if c = CHR ''$'' \<and> d = CHR ''&'' then matched @ getSubstitution r matched preceding following
      else if c = CHR ''$'' \<and> d = CHR ''`'' then preceding @ getSubstitution r matched preceding following
      else if c = CHR ''$'' \<and> d = CHR 0x27 then following @ getSubstitution r matched preceding following
      else c # getSubstitution (d # r) matched preceding following)"

text \<open>
  \<open>s.replace(regex, replacement)\<close> with a global pattern: every match, found from left
  to right, each search starting where the last match ended (one character further on
  an empty match), is replaced. \<open>passed\<close> is the part of the string the search has left behind.
\<close>

function replaceAll :: "pattern \<Rightarrow> string \<Rightarrow> string \<Rightarrow> string \<Rightarrow> string" where
  "replaceAll ps replacement passed [] =
     (case matchEnds ps [] of
        [] \<Rightarrow> []
      | n # _ \<Rightarrow> getSubstitution replacement [] passed [])"
| "replaceAll ps replacement passed (c # cs) =
     (case matchEnds ps (c # cs) of
        [] \<Rightarrow> c # replaceAll ps replacement (passed @ [c]) cs
      | n # _ \<Rightarrow>
          if n = 0
          then getSubstitution replacement [] passed (c # cs)
               @ c # replaceAll ps replacement (passed @ [c]) cs
          else getSubstitution replacement (take n (c # cs)) passed (drop n (c # cs))
               @ replaceAll ps replacement (passed @ take n (c # cs)) (drop n (c # cs)))"
  by pat_completeness auto
termination
  by (relation "measure (\<lambda>(ps, replacement, passed, s). length s)") auto

definition replace :: "string \<Rightarrow> pattern \<Rightarrow> string \<Rightarrow> string" where
  "replace s ps replacement = replaceAll ps replacement [] s"

subsection \<open>Rename propagation\<close>

definition noteContentUpdate :: "string \<Rightarrow> PartialNoteFields FacadeUpdates_scheme" where
  "noteContentUpdate updatedContent =
     \<lparr>u_updatedAt = None, \<dots> = noNoteFields\<lparr>p_content := Some updatedContent\<rparr>\<rparr>"

text \<open>The \<open>for\<close> loop of \<open>updateBacklinksOnNoteRename\<close>; \<open>note\<close> is the renamed note.\<close>

fun renameInNotes :: "World \<Rightarrow> Note \<Rightarrow> string \<Rightarrow> string \<Rightarrow> Note list \<Rightarrow> unit result" where
  "renameInNotes w note oldTitle newTitle [] = (Inr (), w)"
| "renameInNotes w note oldTitle newTitle (sourceNote # rest) =
     (if id' sourceNote = id' note then renameInNotes w note oldTitle newTitle rest
      else
        case parsePattern ([backslash, CHR ''['', backslash, CHR ''['']
                           @ oldTitle
                           @ [backslash, CHR '']'', backslash, CHR '']'']) of
          Inl e \<Rightarrow> (Inl e, w)
        | Inr regex \<Rightarrow>
            if test regex (content (body sourceNote)) then
              (let updatedContent =
                     replace (content (body sourceNote)) regex (''[['' @ newTitle @ '']]'')
               in case updateNote w (id' sourceNote) (noteContentUpdate updatedContent) of
                    (Inl e, w1) \<Rightarrow> (Inl e, w1)
                  | (Inr _, w1) \<Rightarrow>
                      (case syncBacklinksForNote w1 (id' sourceNote) updatedContent of
                         (Inl e, w2) \<Rightarrow> (Inl e, w2)
                       | (Inr _, w2) \<Rightarrow> renameInNotes w2 note oldTitle newTitle rest))
            else renameInNotes w note oldTitle newTitle rest)"

definition updateBacklinksOnNoteRename :: "World \<Rightarrow> string \<Rightarrow> string \<Rightarrow> unit result" where
  "updateBacklinksOnNoteRename w oldTitle newTitle =
     (case findNoteByTitle w oldTitle of
        (Inl e, w1) \<Rightarrow> (Inl e, w1)
      | (Inr None, w1) \<Rightarrow> (Inr (), w1)
      | (Inr (Some note), w1) \<Rightarrow>
          (case getAllNotes w1 noNoteOptions of
             (Inl e, w2) \<Rightarrow> (Inl e, w2)
           | (Inr allNotes, w2) \<Rightarrow> renameInNotes w2 note oldTitle newTitle allNotes))"

section \<open>Statement vocabulary and concrete data\<close>

text \<open>
  A collection handle is usable when reading a store back after writing it gives what was
  written. The three collections of \<open>BrainStorage\<close> are.
\<close>

definition storeLens :: "('m, 'p) Collection \<Rightarrow> bool" where
  "storeLens c = (\<forall>os d. readStore c (writeStore c os d) = os)"

text \<open>
  A request to one collection of the store, as a caller addresses it: \<open>create\<close> with the
  data, \<open>update\<close> with an id and a patch, \<open>delete\<close> with an id.
\<close>

datatype ('m, 'p) request =
  Create 'm
| Update UUID "'p PartialSyncable_scheme"
| Delete UUID

text \<open>
  The patch of an update carries no \<open>id\<close> key, or the id the update is addressed to.
  Every patch the facade passes on is of this kind: its parameter type omits \<open>id\<close>.
\<close>

definition idKept :: "('m, 'p) request \<Rightarrow> bool" where
  "idKept q = (case q of Update k u \<Rightarrow> p_id u = None \<or> p_id u = Some k | _ \<Rightarrow> True)"

text \<open>
  One request served. Beside the world goes a tally \<open>n\<close>: for each id, how many updates
  addressed to that id have succeeded since a record was created under it. A request
  that fails leaves the tally as it is.
\<close>

definition served ::
  "('m, 'p) Collection \<Rightarrow> World \<times> (UUID \<Rightarrow> nat) \<Rightarrow> ('m, 'p) request \<Rightarrow>
   World \<times> (UUID \<Rightarrow> nat)" where
  "served c s q =
     (case s of (w, n) \<Rightarrow>
        (case q of
           Create data \<Rightarrow>
             (case create w c data of
                (Inl e, w') \<Rightarrow> (w', n)
              | (Inr r, w') \<Rightarrow> (w', n(id' r := 0)))
         | Update k u \<Rightarrow>
             (case update w c k u of
                (Inl e, w') \<Rightarrow> (w', n)
              | (Inr r, w') \<Rightarrow> (w', n(k := n k + 1)))
         | Delete k \<Rightarrow> (snd (delete w c k), n)))"

text \<open>A sequence of requests served in order, the tally starting from nought.\<close>

definition history ::
  "('m, 'p) Collection \<Rightarrow> World \<Rightarrow> ('m, 'p) request list \<Rightarrow> World \<times> (UUID \<Rightarrow> nat)" where
  "history c w qs = foldl (served c) (w, \<lambda>_. 0) qs"

text \<open>An object store as IndexedDB keeps it: ascending primary keys, no key twice.\<close>

definition keyOrdered :: "'m SyncableEntity_scheme list \<Rightarrow> bool" where
  "keyOrdered os = (sorted (map id' os) \<and> distinct (map id' os))"




text \<open>No two tags of the store have the same name.\<close>

definition uniqueTagNames :: "World \<Rightarrow> bool" where
  "uniqueTagNames w = distinct (map (\<lambda>t. name (body t)) (tagsStore (idb w)))"

text \<open>
  The worlds reached from one with no tags by \<open>createTag\<close>, by an update of a tag
  (\<open>updateTag\<close> is one), by the deletion of a tag, and by any step that leaves the tag
  store as it is (every operation on notes and backlinks).
\<close>

inductive tagsReachable :: "World \<Rightarrow> bool" where
  noTags: "tagsStore (idb w) = [] \<Longrightarrow> tagsReachable w"
| afterCreateTag: "tagsReachable w \<Longrightarrow> createTag w d = (r, w') \<Longrightarrow> tagsReachable w'"
| afterUpdate: "tagsReachable w \<Longrightarrow> update w tagsC k u = (r, w') \<Longrightarrow> tagsReachable w'"
| afterDelete: "tagsReachable w \<Longrightarrow> delete w tagsC k = (r, w') \<Longrightarrow> tagsReachable w'"
| afterOther: "tagsReachable w \<Longrightarrow> tagsStore (idb w') = tagsStore (idb w) \<Longrightarrow> tagsReachable w'"

text \<open>Records and worlds for the closed instances below.\<close>

definition freshSync :: SyncMetadata where
  "freshSync = \<lparr>version = 1, syncedAt = None, isDeleted = Some False, lastModifiedBy = None\<rparr>"

definition noteRecord :: "UUID \<Rightarrow> string \<Rightarrow> string \<Rightarrow> Note" where
  "noteRecord k t c =
     \<lparr>id' = k, createdAt = 0, updatedAt = 0, sync = freshSync,
      title = t, content = c, tags = [], backlinks = [], attachments = None,
      isArchived = Some False, isPinned = Some False, folderId = None\<rparr>"

definition backlinkRecord :: "UUID \<Rightarrow> UUID \<Rightarrow> UUID \<Rightarrow> Backlink" where
  "backlinkRecord k s t =
     \<lparr>id' = k, createdAt = 0, updatedAt = 0, sync = freshSync,
      sourceNoteId = s, targetNoteId = t, linkType = wiki, context' = None,
      position = None\<rparr>"

definition tagRecord :: "UUID \<Rightarrow> string \<Rightarrow> Tag" where
  "tagRecord k n =
     \<lparr>id' = k, createdAt = 0, updatedAt = 0, sync = freshSync,
      name = n, color = Some ''#3b82f6'', description = Some [], parentId = None,
      isSystemTag = Some False\<rparr>"

definition tagNamed :: "string \<Rightarrow> TagFields" where
  "tagNamed n =
     \<lparr>name = n, color = None, description = None, parentId = None, isSystemTag = None\<rparr>"

text \<open>
  An opened store with the given contents, in an environment whose random ids are
  \<open>u\<close>, \<open>ux\<close>, \<open>uxx\<close>, ..., whose clock reads 0, 1, 2, ... and whose random numbers
  are 0, 1, 2, ...
\<close>

definition world :: "Note list \<Rightarrow> Tag list \<Rightarrow> Backlink list \<Rightarrow> World" where
  "world ns ts bs =
     \<lparr>opened = True,
      idb = \<lparr>notesStore = ns, tagsStore = ts, backlinksStore = bs\<rparr>,
      uuids = (\<lambda>n. CHR ''u'' # replicate n CHR ''x''),
      clock = (\<lambda>n. int n),
      randoms = (\<lambda>n. n)\<rparr>"

text \<open>A patch that carries a \<open>sync\<close> object and nothing else.\<close>

definition patchWithSync :: "PartialNoteFields PartialSyncable_scheme" where
  "patchWithSync =
     \<lparr>p_id = None, p_createdAt = None, p_updatedAt = None,
      p_sync = Some \<lparr>version = 10, syncedAt = Some 5, isDeleted = Some True,
                     lastModifiedBy = Some ''me''\<rparr>,
      \<dots> = noNoteFields\<rparr>"

text \<open>The patch \<open>{}\<close> on a note, and the patch \<open>{id: k}\<close>.\<close>

definition emptyPatch :: "PartialNoteFields PartialSyncable_scheme" where
  "emptyPatch =
     \<lparr>p_id = None, p_createdAt = None, p_updatedAt = None, p_sync = None,
      \<dots> = noNoteFields\<rparr>"

definition patchWithId :: "UUID \<Rightarrow> PartialNoteFields PartialSyncable_scheme" where
  "patchWithId k = emptyPatch\<lparr>p_id := Some k\<rparr>"

text \<open>The fields of a note titled \<open>A\<close>, as \<open>create\<close> takes them.\<close>

definition fieldsA :: NoteFields where
  "fieldsA = body (noteRecord [] ''A'' ''x'')"

text \<open>Each record of the notes store as its id and its \<open>sync.version\<close>.\<close>

definition noteVersions :: "World \<Rightarrow> (UUID \<times> int) list" where
  "noteVersions w = map (\<lambda>r. (id' r, version (sync r))) (notesStore (idb w))"

text \<open>A \<open>createNote\<close> argument with only a title and a content.\<close>

definition bareNote :: "string \<Rightarrow> string \<Rightarrow> NoteData" where
  "bareNote t c =
     \<lparr>d_title = t, d_content = c, d_tags = None, d_backlinks = None, d_attachments = None,
      d_isArchived = None, d_isPinned = None, d_folderId = None\<rparr>"

definition oneNote :: World where
  "oneNote = world [noteRecord ''a'' ''A'' ''x''] [] []"


definition fourNotes :: World where
  "fourNotes =
     world [noteRecord ''a'' ''A'' ''x'', noteRecord ''b'' ''B'' ''x'',
            noteRecord ''c'' ''C'' ''x'', noteRecord ''d'' ''D'' ''x''] [] []"

text \<open>Note \<open>b\<close> links to note \<open>a\<close>; backlink \<open>k1\<close> records it.\<close>

definition linkedNotes :: World where
  "linkedNotes =
     world [noteRecord ''a'' ''A'' ''no links'', noteRecord ''b'' ''B'' ''see [[A]]'']
           []
           [backlinkRecord ''k1'' ''b'' ''a'']"

text \<open>Note \<open>a\<close> links to itself; backlink \<open>k1\<close> records it.\<close>

definition selfLinked :: World where
  "selfLinked =
     world [noteRecord ''a'' ''A'' ''me: [[A]]''] [] [backlinkRecord ''k1'' ''a'' ''a'']"

text \<open>Note \<open>b\<close> links to the note titled \<open>Why?\<close>; note \<open>c\<close> does not.\<close>

definition questionNotes :: World where
  "questionNotes =
     world [noteRecord ''a'' ''Why?'' ''x'', noteRecord ''b'' ''B'' ''see [[Why?]]'',
            noteRecord ''c'' ''C'' ''see [[wh]]''] [] []"

section \<open>Properties of the entity store\<close>

subsection \<open>Object store requests\<close>

lemma os_get_None_iff: "os_get os k = None \<longleftrightarrow> k \<notin> id' ` set os"
  by (auto simp: os_get_def find_None_iff)

lemma os_get_SomeD: "os_get os k = Some e \<Longrightarrow> e \<in> set os \<and> id' e = k"
  by (auto simp: os_get_def find_Some_iff)

lemma find_insort_key_fresh:
  "P e \<Longrightarrow> \<forall>x \<in> set xs. \<not> P x \<Longrightarrow> find P (insort_key f e xs) = Some e"
  by (induction xs) auto

lemma os_get_put: "os_put ixs os e = Some os' \<Longrightarrow> os_get os' (id' e) = Some e"
  by (auto simp: os_put_def os_get_def split: if_splits intro!: find_insort_key_fresh)

lemma os_get_add: "os_add ixs os e = Some os' \<Longrightarrow> os_get os' (id' e) = Some e"
  by (auto simp: os_add_def os_get_def find_None_iff split: if_splits
           intro!: find_insort_key_fresh)

lemma storeLens_notesC: "storeLens notesC"
  by (simp add: storeLens_def notesC_def)

lemma storeLens_tagsC: "storeLens tagsC"
  by (simp add: storeLens_def tagsC_def)

lemma storeLens_backlinksC: "storeLens backlinksC"
  by (simp add: storeLens_def backlinksC_def)

subsection \<open>What a successful \<open>create\<close> and \<open>update\<close> did\<close>

lemma create_Inr:
  assumes "create w c data = (Inr r, w')"
  obtains os where "opened w"
    "r = \<lparr>id' = uuids w 0, createdAt = clock w 0, updatedAt = clock w 0,
          sync = \<lparr>version = 1, syncedAt = None, isDeleted = Some False,
                   lastModifiedBy = None\<rparr>,
          \<dots> = data\<rparr>"
    "os_add (indices c) (readStore c (idb w)) r = Some os"
    "w' = w\<lparr>clock := (\<lambda>n. clock w (Suc n)), uuids := (\<lambda>n. uuids w (Suc n)),
             idb := writeStore c os (idb w)\<rparr>"
  using assms
  by (auto simp: create_def newDate_def randomUUID_def Let_def split: if_splits option.splits)

lemma update_Inr:
  assumes "update w c k u = (Inr r, w')"
  obtains current os where "opened w" "os_get (readStore c (idb w)) k = Some current"
    "r = merged c current u (clock w 0)"
    "os_put (indices c) (readStore c (idb w)) r = Some os"
    "w' = w\<lparr>clock := (\<lambda>n. clock w (Suc n)), idb := writeStore c os (idb w)\<rparr>"
  using assms
  by (auto simp: update_def newDate_def Let_def split: if_splits option.splits)

lemma create_stored:
  assumes "storeLens c" and "create w c data = (Inr r, w')"
  shows "version (sync r) = 1 \<and> body r = data
         \<and> os_get (readStore c (idb w')) (id' r) = Some r"
proof -
  from assms(2) obtain os where
    r: "r = \<lparr>id' = uuids w 0, createdAt = clock w 0, updatedAt = clock w 0,
          sync = \<lparr>version = 1, syncedAt = None, isDeleted = Some False,
                   lastModifiedBy = None\<rparr>,
          \<dots> = data\<rparr>"
    and add: "os_add (indices c) (readStore c (idb w)) r = Some os"
    and w': "w' = w\<lparr>clock := (\<lambda>n. clock w (Suc n)), uuids := (\<lambda>n. uuids w (Suc n)),
             idb := writeStore c os (idb w)\<rparr>"
    by (rule create_Inr)
  have "readStore c (idb w') = os"
    using assms(1) w' by (simp add: storeLens_def)
  with add have "os_get (readStore c (idb w')) (id' r) = Some r"
    by (simp add: os_get_add)
  moreover have "version (sync r) = 1" "body r = data"
    by (simp_all add: r)
  ultimately show ?thesis
    by simp
qed

lemma update_stored:
  assumes "storeLens c" and "update w c k updates = (Inr r, w')"
  shows "\<exists>current. os_get (readStore c (idb w)) k = Some current
           \<and> sync r = (sync current)\<lparr>version := version (sync current) + 1\<rparr>
           \<and> body r = spread c (body current) (p_body updates)
           \<and> os_get (readStore c (idb w')) (id' r) = Some r"
proof -
  from assms(2) obtain current os where
    cur: "os_get (readStore c (idb w)) k = Some current"
    and r: "r = merged c current updates (clock w 0)"
    and put: "os_put (indices c) (readStore c (idb w)) r = Some os"
    and w': "w' = w\<lparr>clock := (\<lambda>n. clock w (Suc n)), idb := writeStore c os (idb w)\<rparr>"
    by (rule update_Inr)
  have "readStore c (idb w') = os"
    using assms(1) w' by (simp add: storeLens_def)
  with put have "os_get (readStore c (idb w')) (id' r) = Some r"
    by (simp add: os_get_put)
  with cur r show ?thesis
    by (simp add: merged_def spreadEntity_def)
qed

subsection \<open>Histories of requests\<close>

lemma find_insort_key_other: "\<not> P e \<Longrightarrow> find P (insort_key f e xs) = find P xs"
  by (induction xs) auto

lemma find_filter_other: "(\<And>x. P x \<Longrightarrow> Q x) \<Longrightarrow> find P (filter Q xs) = find P xs"
  by (induction xs) auto

lemma os_get_add_other:
  "os_add ixs os e = Some os' \<Longrightarrow> k \<noteq> id' e \<Longrightarrow> os_get os' k = os_get os k"
  by (auto simp: os_add_def os_get_def find_insort_key_other split: if_splits)

lemma os_get_put_other:
  "os_put ixs os e = Some os' \<Longrightarrow> k \<noteq> id' e \<Longrightarrow> os_get os' k = os_get os k"
  by (auto simp: os_put_def os_get_def find_insort_key_other find_filter_other split: if_splits)

lemma os_get_delete_other: "k \<noteq> k2 \<Longrightarrow> os_get (os_delete os k2) k = os_get os k"
  by (simp add: os_delete_def os_get_def find_filter_other)

lemma os_get_delete_same: "os_get (os_delete os k) k = None"
  by (simp add: os_delete_def os_get_def find_None_iff)

lemma create_Inl: "create w c d = (Inl e, w') \<Longrightarrow> idb w' = idb w"
  by (auto simp: create_def newDate_def randomUUID_def Let_def split: if_splits option.splits)

lemma update_Inl: "update w c k u = (Inl e, w') \<Longrightarrow> idb w' = idb w"
  by (auto simp: update_def newDate_def Let_def split: if_splits option.splits)

lemma update_id_kept:
  assumes "update w c k u = (Inr r, w')" and "p_id u = None \<or> p_id u = Some k"
  shows "id' r = k"
proof -
  from assms(1) obtain current where
    cur: "os_get (readStore c (idb w)) k = Some current"
    and r: "r = merged c current u (clock w 0)"
    by (rule update_Inr)
  from cur have "id' current = k"
    by (simp add: os_get_SomeD)
  with r assms(2) show ?thesis
    by (auto simp: merged_def spreadEntity_def spreadKey_def)
qed

lemma served_counted:
  assumes lens: "storeLens c" and kept: "idKept q"
    and step: "served c (w, n) q = (w', n')"
    and inv: "\<forall>r \<in> set (readStore c (idb w)). version (sync r) = 1 + int (n (id' r))"
  shows "\<forall>r \<in> set (readStore c (idb w')). version (sync r) = 1 + int (n' (id' r))"
proof (cases q)
  case (Create data)
  show ?thesis
  proof (cases "create w c data")
    case (Pair res w1)
    show ?thesis
    proof (cases res)
      case (Inl e)
      with Pair Create step have "w' = w1" "n' = n"
        by (simp_all add: served_def)
      moreover from Pair Inl have "idb w1 = idb w"
        by (simp add: create_Inl)
      ultimately show ?thesis
        using inv by simp
    next
      case (Inr r)
      with Pair Create step have w': "w' = w1" and n': "n' = n(id' r := 0)"
        by (simp_all add: served_def)
      from Pair Inr obtain os where
        v: "version (sync r) = 1"
        and add: "os_add (indices c) (readStore c (idb w)) r = Some os"
        and w1: "w1 = w\<lparr>clock := (\<lambda>n. clock w (Suc n)), uuids := (\<lambda>n. uuids w (Suc n)),
             idb := writeStore c os (idb w)\<rparr>"
        by (auto elim!: create_Inr)
      from add have os: "os = insort_key id' r (readStore c (idb w))"
        and fresh: "\<forall>x \<in> set (readStore c (idb w)). id' x \<noteq> id' r"
        by (auto simp: os_add_def os_get_def find_None_iff split: if_splits)
      from lens w1 w' have "readStore c (idb w') = os"
        by (simp add: storeLens_def)
      with os v inv n' fresh show ?thesis
        by (auto simp: set_insort_key)
    qed
  qed
next
  case (Update k u)
  with kept have pid: "p_id u = None \<or> p_id u = Some k"
    by (simp add: idKept_def)
  show ?thesis
  proof (cases "update w c k u")
    case (Pair res w1)
    show ?thesis
    proof (cases res)
      case (Inl e)
      with Pair Update step have "w' = w1" "n' = n"
        by (simp_all add: served_def)
      moreover from Pair Inl have "idb w1 = idb w"
        by (simp add: update_Inl)
      ultimately show ?thesis
        using inv by simp
    next
      case (Inr r)
      with Pair Update step have w': "w' = w1" and n': "n' = n(k := n k + 1)"
        by (simp_all add: served_def)
      from Pair Inr have upd: "update w c k u = (Inr r, w1)"
        by simp
      then obtain current os where
        cur: "os_get (readStore c (idb w)) k = Some current"
        and r: "r = merged c current u (clock w 0)"
        and put: "os_put (indices c) (readStore c (idb w)) r = Some os"
        and w1: "w1 = w\<lparr>clock := (\<lambda>n. clock w (Suc n)), idb := writeStore c os (idb w)\<rparr>"
        by (rule update_Inr)
      from update_id_kept [OF upd pid] have idr: "id' r = k" .
      from cur have "current \<in> set (readStore c (idb w))" "id' current = k"
        by (simp_all add: os_get_SomeD)
      with inv have "version (sync current) = 1 + int (n k)"
        by auto
      with r have v: "version (sync r) = 1 + int (n k + 1)"
        by (simp add: merged_def)
      from put have os: "os = insort_key id' r (filter (\<lambda>x. id' x \<noteq> id' r) (readStore c (idb w)))"
        by (auto simp: os_put_def split: if_splits)
      from lens w1 w' have "readStore c (idb w') = os"
        by (simp add: storeLens_def)
      with os v inv n' idr show ?thesis
        by (auto simp: set_insort_key)
    qed
  qed
next
  case (Delete k)
  with step have w': "w' = snd (delete w c k)" and n': "n' = n"
    by (simp_all add: served_def)
  from lens have "set (readStore c (idb (snd (delete w c k)))) \<subseteq> set (readStore c (idb w))"
    by (auto simp: delete_def storeLens_def os_delete_def)
  with inv w' n' show ?thesis
    by auto
qed

lemma history_counted:
  assumes lens: "storeLens c"
  shows "\<forall>q \<in> set qs. idKept q \<Longrightarrow> foldl (served c) (w, n) qs = (w', n') \<Longrightarrow>
         \<forall>r \<in> set (readStore c (idb w)). version (sync r) = 1 + int (n (id' r)) \<Longrightarrow>
         \<forall>r \<in> set (readStore c (idb w')). version (sync r) = 1 + int (n' (id' r))"
proof (induction qs arbitrary: w n)
  case Nil
  then show ?case by simp
next
  case (Cons q qs)
  obtain w1 n1 where s1: "served c (w, n) q = (w1, n1)"
    by (cases "served c (w, n) q")
  from Cons.prems(1) have kept: "idKept q" and rest: "\<forall>q \<in> set qs. idKept q"
    by simp_all
  from served_counted [OF lens kept s1 Cons.prems(3)]
  have inv1: "\<forall>r \<in> set (readStore c (idb w1)). version (sync r) = 1 + int (n1 (id' r))" .
  from Cons.prems(2) s1 have "foldl (served c) (w1, n1) qs = (w', n')"
    by simp
  from Cons.IH [OF rest this inv1] show ?case .
qed

lemma served_version_mono:
  assumes lens: "storeLens c" and kept: "idKept q"
    and step: "served c (w, n) q = (w', n')"
    and before: "os_get (readStore c (idb w)) k = Some r"
    and after: "os_get (readStore c (idb w')) k = Some r'"
  shows "version (sync r) \<le> version (sync r')"
proof (cases q)
  case (Create data)
  show ?thesis
  proof (cases "create w c data")
    case (Pair res w1)
    show ?thesis
    proof (cases res)
      case (Inl e)
      with Pair Create step have "w' = w1"
        by (simp add: served_def)
      moreover from Pair Inl have "idb w1 = idb w"
        by (simp add: create_Inl)
      ultimately show ?thesis
        using before after by simp
    next
      case (Inr e)
      with Pair Create step have w': "w' = w1"
        by (simp add: served_def)
      from Pair Inr obtain os where
        add: "os_add (indices c) (readStore c (idb w)) e = Some os"
        and w1: "w1 = w\<lparr>clock := (\<lambda>n. clock w (Suc n)), uuids := (\<lambda>n. uuids w (Suc n)),
             idb := writeStore c os (idb w)\<rparr>"
        by (auto elim!: create_Inr)
      from add have "os_get (readStore c (idb w)) (id' e) = None"
        by (auto simp: os_add_def split: if_splits)
      with before have "k \<noteq> id' e"
        by auto
      with add have "os_get os k = os_get (readStore c (idb w)) k"
        by (rule os_get_add_other)
      moreover from lens w1 w' have "readStore c (idb w') = os"
        by (simp add: storeLens_def)
      ultimately show ?thesis
        using before after by simp
    qed
  qed
next
  case (Update k2 u)
  with kept have pid: "p_id u = None \<or> p_id u = Some k2"
    by (simp add: idKept_def)
  show ?thesis
  proof (cases "update w c k2 u")
    case (Pair res w1)
    show ?thesis
    proof (cases res)
      case (Inl e)
      with Pair Update step have "w' = w1"
        by (simp add: served_def)
      moreover from Pair Inl have "idb w1 = idb w"
        by (simp add: update_Inl)
      ultimately show ?thesis
        using before after by simp
    next
      case (Inr e)
      with Pair Update step have w': "w' = w1"
        by (simp add: served_def)
      from Pair Inr have upd: "update w c k2 u = (Inr e, w1)"
        by simp
      then obtain current os where
        cur: "os_get (readStore c (idb w)) k2 = Some current"
        and e: "e = merged c current u (clock w 0)"
        and put: "os_put (indices c) (readStore c (idb w)) e = Some os"
        and w1: "w1 = w\<lparr>clock := (\<lambda>n. clock w (Suc n)), idb := writeStore c os (idb w)\<rparr>"
        by (rule update_Inr)
      from update_id_kept [OF upd pid] have ide: "id' e = k2" .
      from lens w1 w' have os: "readStore c (idb w') = os"
        by (simp add: storeLens_def)
      show ?thesis
      proof (cases "k = k2")
        case True
        with put ide have "os_get os k = Some e"
          by (auto dest: os_get_put)
        with os after have "r' = e"
          by simp
        moreover from True cur before have "current = r"
          by simp
        ultimately show ?thesis
          using e by (simp add: merged_def)
      next
        case False
        with put ide have "os_get os k = os_get (readStore c (idb w)) k"
          by (auto intro: os_get_put_other)
        with os before after show ?thesis
          by simp
      qed
    qed
  qed
next
  case (Delete k2)
  with step have w': "w' = snd (delete w c k2)"
    by (simp add: served_def)
  from lens have os: "readStore c (idb (snd (delete w c k2)))
      = (if opened w then os_delete (readStore c (idb w)) k2 else readStore c (idb w))"
    by (auto simp: delete_def storeLens_def)
  show ?thesis
  proof (cases "k = k2 \<and> opened w")
    case True
    with os w' after show ?thesis
      by (simp add: os_get_delete_same)
  next
    case False
    with os w' before after show ?thesis
      by (auto simp: os_get_delete_other split: if_splits)
  qed
qed

text \<open>The definitions a closed instance on the notes store unfolds.\<close>

lemmas store_eval =
  world_def noteRecord_def backlinkRecord_def tagRecord_def freshSync_def tagNamed_def
  notesC_def tagsC_def backlinksC_def noOptions_def noNoteFields_def
  create_def update_def delete_def getAll_def get_def
  newDate_def randomUUID_def randomIndex_def
  os_get_def os_put_def os_add_def os_delete_def violatesUnique_def
  openCursor_def indexCursor_def inDirection_def underLimit_def pastOffset_def
  merged_def spreadEntity_def spreadKey_def spreadNote_def spreadTag_def spreadBacklink_def
  Let_def

section \<open>Properties of the facade and the sync functions\<close>

subsection \<open>Index lookups and the tag store\<close>

lemma cursorLoop_all: "cursorLoop None None xs n results = results @ xs"
  by (induction xs arbitrary: n results) (simp_all add: underLimit_def pastOffset_def)

lemma filter_head_find:
  "(case filter P xs of [] \<Rightarrow> None | x # _ \<Rightarrow> Some x) = find P xs"
  by (induction xs) auto

lemma getAll_tags_by_name:
  "opened w \<Longrightarrow>
   getAll w tagsC (noOptions\<lparr>index := Some ''name'', range' := Some (only (KString nm))\<rparr>)
     = (Inr (filter (\<lambda>t. name (body t) = nm) (tagsStore (idb w))), w)"
  by (simp add: getAll_def openCursor_def indexCursor_def inDirection_def noOptions_def
                tagsC_def cursorLoop_all)

lemma getAll_closed:
  "\<not> opened w \<Longrightarrow> getAll w c options = (Inl (StorageError DATABASE_OPEN_FAILED), w)"
  by (simp add: getAll_def)


text \<open>The record \<open>createTag\<close> stores for a new name.\<close>

lemma createTag_eq:
  "createTag w d =
     (if opened w then
        (case find (\<lambda>t. name (body t) = name d) (tagsStore (idb w)) of
           Some t \<Rightarrow> (Inr t, w)
         | None \<Rightarrow>
             create w tagsC
               \<lparr>name = name d,
                color = Some (orString (color d) ''#3b82f6''),
                description = Some (orString (description d) []),
                parentId = (case parentId d of
                              None \<Rightarrow> None
                            | Some p \<Rightarrow> if p = [] then None else Some p),
                isSystemTag = Some (orFalse (isSystemTag d))\<rparr>)
      else (Inl (StorageError DATABASE_OPEN_FAILED), w))"
proof (cases "opened w")
  case True
  show ?thesis
  proof (cases "filter (\<lambda>t. name (body t) = name d) (tagsStore (idb w))")
    case Nil
    then have "find (\<lambda>t. name (body t) = name d) (tagsStore (idb w)) = None"
      using filter_head_find [of "\<lambda>t. name (body t) = name d" "tagsStore (idb w)"] by simp
    with True Nil show ?thesis
      by (simp add: createTag_def getAll_tags_by_name)
  next
    case (Cons t ts)
    then have "find (\<lambda>t. name (body t) = name d) (tagsStore (idb w)) = Some t"
      using filter_head_find [of "\<lambda>t. name (body t) = name d" "tagsStore (idb w)"] by simp
    with True Cons show ?thesis
      by (simp add: createTag_def getAll_tags_by_name)
  qed
next
  case False
  then show ?thesis
    by (simp add: createTag_def getAll_closed)
qed

lemma violatesUnique_tagsC:
  "violatesUnique (indices tagsC) os e
     \<longleftrightarrow> (\<exists>x \<in> set os. id' x \<noteq> id' e \<and> name (body x) = name (body e))"
  by (auto simp: violatesUnique_def tagsC_def)

lemma distinct_map_insort_key:
  "distinct (map f (insort_key k x xs)) \<longleftrightarrow> f x \<notin> f ` set xs \<and> distinct (map f xs)"
  by (induction xs) (auto simp: set_insort_key)

lemma os_add_tag_names:
  assumes "os_add (indices tagsC) os e = Some os'"
    and "distinct (map (\<lambda>t. name (body t)) os)"
  shows "distinct (map (\<lambda>t. name (body t)) os')"
proof -
  from assms(1) have fresh: "\<forall>x \<in> set os. id' x \<noteq> id' e"
    and nv: "\<not> violatesUnique (indices tagsC) os e"
    and os': "os' = insort_key id' e os"
    by (auto simp: os_add_def os_get_def find_None_iff split: if_splits)
  have "name (body e) \<notin> (\<lambda>t. name (body t)) ` set os"
  proof
    assume "name (body e) \<in> (\<lambda>t. name (body t)) ` set os"
    then obtain t where t: "t \<in> set os" "name (body t) = name (body e)"
      by auto
    with fresh have "id' t \<noteq> id' e"
      by blast
    with t nv show False
      unfolding violatesUnique_tagsC by blast
  qed
  with assms(2) os' show ?thesis
    by (simp add: distinct_map_insort_key)
qed

lemma os_put_tag_names:
  assumes "os_put (indices tagsC) os e = Some os'"
    and "distinct (map (\<lambda>t. name (body t)) os)"
  shows "distinct (map (\<lambda>t. name (body t)) os')"
proof -
  from assms(1) have nv: "\<not> violatesUnique (indices tagsC) os e"
    and os': "os' = insort_key id' e (filter (\<lambda>x. id' x \<noteq> id' e) os)"
    by (auto simp: os_put_def split: if_splits)
  have "name (body e) \<notin> (\<lambda>t. name (body t)) ` set (filter (\<lambda>x. id' x \<noteq> id' e) os)"
  proof
    assume "name (body e) \<in> (\<lambda>t. name (body t)) ` set (filter (\<lambda>x. id' x \<noteq> id' e) os)"
    then obtain t where t: "t \<in> set os" "id' t \<noteq> id' e" "name (body t) = name (body e)"
      by auto
    with nv show False
      unfolding violatesUnique_tagsC by blast
  qed
  moreover from assms(2) have "distinct (map (\<lambda>t. name (body t)) (filter (\<lambda>x. id' x \<noteq> id' e) os))"
    by (rule distinct_map_filter)
  ultimately show ?thesis
    using os' by (simp add: distinct_map_insort_key)
qed

lemma create_tag_names:
  assumes "create w tagsC data = (r, w')" and "uniqueTagNames w"
  shows "uniqueTagNames w'"
proof (cases r)
  case (Inl e)
  with assms(1) have "idb w' = idb w"
    by (auto simp: create_def newDate_def randomUUID_def Let_def split: if_splits option.splits)
  with assms(2) show ?thesis
    by (simp add: uniqueTagNames_def)
next
  case (Inr t)
  with assms(1) obtain os where
    "os_add (indices tagsC) (readStore tagsC (idb w)) t = Some os"
    and "w' = w\<lparr>clock := (\<lambda>n. clock w (Suc n)), uuids := (\<lambda>n. uuids w (Suc n)),
             idb := writeStore tagsC os (idb w)\<rparr>"
    by (auto elim: create_Inr)
  with assms(2) os_add_tag_names [of "tagsStore (idb w)" t os] show ?thesis
    by (simp add: uniqueTagNames_def tagsC_def)
qed

lemma update_tag_names:
  assumes "update w tagsC k u = (r, w')" and "uniqueTagNames w"
  shows "uniqueTagNames w'"
proof (cases r)
  case (Inl e)
  with assms(1) have "idb w' = idb w"
    by (auto simp: update_def newDate_def Let_def split: if_splits option.splits)
  with assms(2) show ?thesis
    by (simp add: uniqueTagNames_def)
next
  case (Inr t)
  with assms(1) obtain os where
    "os_put (indices tagsC) (readStore tagsC (idb w)) t = Some os"
    and "w' = w\<lparr>clock := (\<lambda>n. clock w (Suc n)), idb := writeStore tagsC os (idb w)\<rparr>"
    by (auto elim: update_Inr)
  with assms(2) os_put_tag_names [of "tagsStore (idb w)" t os] show ?thesis
    by (simp add: uniqueTagNames_def tagsC_def)
qed

lemma delete_tag_names:
  assumes "delete w tagsC k = (r, w')" and "uniqueTagNames w"
  shows "uniqueTagNames w'"
  using assms
  by (auto simp: delete_def uniqueTagNames_def tagsC_def os_delete_def distinct_map_filter
           split: if_splits)

lemma createTag_tag_names:
  assumes "createTag w d = (r, w')" and "uniqueTagNames w"
  shows "uniqueTagNames w'"
  using assms create_tag_names
  by (auto simp: createTag_eq split: if_splits option.splits)

lemma createTag_again:
  assumes "createTag w d = (Inr t, w1)" and "name d' = name d"
  shows "createTag w1 d' = (Inr t, w1)"
proof (cases "find (\<lambda>t. name (body t) = name d) (tagsStore (idb w))")
  case (Some t0)
  with assms show ?thesis
    by (auto simp: createTag_eq split: if_splits)
next
  case None
  with assms(1) have op: "opened w"
    and c: "create w tagsC
               \<lparr>name = name d,
                color = Some (orString (color d) ''#3b82f6''),
                description = Some (orString (description d) []),
                parentId = (case parentId d of
                              None \<Rightarrow> None
                            | Some p \<Rightarrow> if p = [] then None else Some p),
                isSystemTag = Some (orFalse (isSystemTag d))\<rparr> = (Inr t, w1)"
    by (auto simp: createTag_eq split: if_splits)
  from c obtain os where t: "name (body t) = name d"
    and add: "os_add (indices tagsC) (readStore tagsC (idb w)) t = Some os"
    and w1: "w1 = w\<lparr>clock := (\<lambda>n. clock w (Suc n)), uuids := (\<lambda>n. uuids w (Suc n)),
             idb := writeStore tagsC os (idb w)\<rparr>"
    by (auto elim!: create_Inr)
  from add have os: "os = insort_key id' t (tagsStore (idb w))"
    by (auto simp: os_add_def tagsC_def split: if_splits)
  from None have "\<forall>x \<in> set (tagsStore (idb w)). name (body x) \<noteq> name d"
    by (simp add: find_None_iff)
  with t os have "find (\<lambda>x. name (body x) = name d) os = Some t"
    by (simp add: find_insort_key_fresh)
  with op w1 assms(2) show ?thesis
    by (simp add: createTag_eq tagsC_def)
qed

subsection \<open>The stores stay in key order\<close>

text \<open>
  The three writes keep an object store a list of records with distinct ids in ascending
  order of id, which is what a cursor on the store is taken to visit.
\<close>

lemma os_add_keyOrdered:
  assumes "os_add ixs os e = Some os'" and "keyOrdered os"
  shows "keyOrdered os'"
proof -
  from assms(1) have os': "os' = insort_key id' e os"
    and fresh: "\<forall>x \<in> set os. id' x \<noteq> id' e"
    by (auto simp: os_add_def os_get_def find_None_iff split: if_splits)
  from fresh have "id' e \<notin> id' ` set os"
    by (auto simp: image_iff)
  with assms(2) show ?thesis
    by (simp add: keyOrdered_def os' sorted_insort_key distinct_map_insort_key)
qed

lemma os_put_keyOrdered:
  assumes "os_put ixs os e = Some os'" and "keyOrdered os"
  shows "keyOrdered os'"
proof -
  from assms(1) have os': "os' = insort_key id' e (filter (\<lambda>x. id' x \<noteq> id' e) os)"
    by (auto simp: os_put_def split: if_splits)
  have "id' e \<notin> id' ` set (filter (\<lambda>x. id' x \<noteq> id' e) os)"
    by (auto simp: image_iff)
  moreover from assms(2) have "sorted (map id' (filter (\<lambda>x. id' x \<noteq> id' e) os))"
    "distinct (map id' (filter (\<lambda>x. id' x \<noteq> id' e) os))"
    by (simp_all add: keyOrdered_def sorted_filter distinct_map_filter)
  ultimately show ?thesis
    by (simp add: keyOrdered_def os' sorted_insort_key distinct_map_insort_key)
qed

lemma os_delete_keyOrdered: "keyOrdered os \<Longrightarrow> keyOrdered (os_delete os k)"
  by (simp add: keyOrdered_def os_delete_def sorted_filter distinct_map_filter)

subsection \<open>Hashtag extraction\<close>

text \<open>The list with only the first occurrence of each element kept.\<close>

lemma firsts_snoc:
  "rev (remdups (rev (ys @ [x])))
     = (if x \<in> set ys then rev (remdups (rev ys)) else rev (remdups (rev ys)) @ [x])"
  by simp












subsection \<open>Find or create\<close>







subsection \<open>When the tag sync succeeds\<close>




subsection \<open>The backlink store\<close>

lemma getAll_backlinks_by_source:
  "opened w \<Longrightarrow>
   getAll w backlinksC
     (noOptions\<lparr>index := Some ''sourceNoteId'', range' := Some (only (KString n))\<rparr>)
     = (Inr (filter (\<lambda>b. sourceNoteId (body b) = n) (backlinksStore (idb w))), w)"
  by (simp add: getAll_def openCursor_def indexCursor_def inDirection_def noOptions_def
                backlinksC_def cursorLoop_all)

lemma getAll_backlinks_by_target:
  "opened w \<Longrightarrow>
   getAll w backlinksC
     (noOptions\<lparr>index := Some ''targetNoteId'', range' := Some (only (KString n))\<rparr>)
     = (Inr (filter (\<lambda>b. targetNoteId (body b) = n) (backlinksStore (idb w))), w)"
  by (simp add: getAll_def openCursor_def indexCursor_def inDirection_def noOptions_def
                backlinksC_def cursorLoop_all)

text \<open>\<open>getBacklinksForNote\<close> appends the two lookups.\<close>

lemma getBacklinksForNote_eq:
  "getBacklinksForNote w n =
     (if opened w
      then (Inr (filter (\<lambda>b. sourceNoteId (body b) = n) (backlinksStore (idb w))
                 @ filter (\<lambda>b. targetNoteId (body b) = n) (backlinksStore (idb w))), w)
      else (Inl (StorageError DATABASE_OPEN_FAILED), w))"
  by (simp add: getBacklinksForNote_def getAll_backlinks_by_source getAll_backlinks_by_target
                getAll_closed)

lemma deleteBacklinks_store:
  "opened w \<Longrightarrow>
   fst (deleteBacklinks w bs) = Inr ()
   \<and> opened (snd (deleteBacklinks w bs))
   \<and> backlinksStore (idb (snd (deleteBacklinks w bs)))
       = filter (\<lambda>x. id' x \<notin> id' ` set bs) (backlinksStore (idb w))"
proof (induction bs arbitrary: w)
  case Nil
  then show ?case by simp
next
  case (Cons b bs)
  define w1 where "w1 = w\<lparr>idb := (idb w)\<lparr>backlinksStore :=
                            filter (\<lambda>x. id' x \<noteq> id' b) (backlinksStore (idb w))\<rparr>\<rparr>"
  from Cons.prems have step: "deleteBacklink w (id' b) = (Inr (), w1)"
    by (simp add: deleteBacklink_def delete_def backlinksC_def os_delete_def w1_def)
  have "opened w1"
    using Cons.prems by (simp add: w1_def)
  from Cons.IH [OF this] step show ?case
    by (auto simp: w1_def intro: filter_cong)
qed

text \<open>
  After the teardown no backlink that has the note as its source or as its target is
  left in the store.
\<close>

lemma removeBacklinksFromNote_both_directions:
  assumes "opened w"
    and "b \<in> set (backlinksStore (idb (snd (removeBacklinksFromNote w n))))"
  shows "sourceNoteId (body b) \<noteq> n \<and> targetNoteId (body b) \<noteq> n"
proof -
  define hits where "hits = filter (\<lambda>b. sourceNoteId (body b) = n) (backlinksStore (idb w))
                 @ filter (\<lambda>b. targetNoteId (body b) = n) (backlinksStore (idb w))"
  from assms(1) have "removeBacklinksFromNote w n = deleteBacklinks w hits"
    by (simp add: removeBacklinksFromNote_def getBacklinksForNote_eq hits_def)
  with deleteBacklinks_store [OF assms(1), of hits] assms(2)
  have "b \<in> set (backlinksStore (idb w))" "id' b \<notin> id' ` set hits"
    by simp_all
  then show ?thesis
    by (auto simp: hits_def image_iff)
qed

section \<open>Claims about the entity store\<close>

subsection \<open>C2: the window of \<open>getAll\<close>\<close>

text \<open>
  What the cursor loop returns for a limit other than 0 and an offset: one counter counts
  the records visited, so the limit bounds the position of the last record visited and
  the offset is taken out of that prefix.
\<close>

lemma cursorLoop_window:
  "l \<noteq> 0 \<Longrightarrow>
   cursorLoop (Some l) (Some off) xs n results
     = results @ drop (nat off - n) (take (nat l - n) xs)"
proof (induction xs arbitrary: n results)
  case Nil
  then show ?case by simp
next
  case (Cons v xs)
  show ?case
  proof (cases "int n < l")
    case True
    then have "nat l - n = Suc (nat l - Suc n)"
      by linarith
    then have take: "take (nat l - n) (v # xs) = v # take (nat l - Suc n) xs"
      by simp
    show ?thesis
    proof (cases "off \<le> int n")
      case True
      with \<open>int n < l\<close> Cons.prems Cons.IH [of "Suc n" "results @ [v]"] show ?thesis
        by (simp add: take underLimit_def pastOffset_def)
    next
      case False
      then have "nat off - n = Suc (nat off - Suc n)"
        by linarith
      then have "drop (nat off - n) (v # take (nat l - Suc n) xs)
                   = drop (nat off - Suc n) (take (nat l - Suc n) xs)"
        by simp
      with False \<open>int n < l\<close> Cons.prems Cons.IH [of "Suc n" results] show ?thesis
        by (simp add: take underLimit_def pastOffset_def)
    qed
  next
    case False
    with Cons.prems show ?thesis
      by (simp add: underLimit_def pastOffset_def)
  qed
qed

text \<open>With one of the two options alone the loop does what C2 says of that case.\<close>

lemma cursorLoop_limit_only:
  "l \<noteq> 0 \<Longrightarrow> cursorLoop (Some l) None xs n results = results @ take (nat l - n) xs"
proof (induction xs arbitrary: n results)
  case Nil
  then show ?case by simp
next
  case (Cons v xs)
  show ?case
  proof (cases "int n < l")
    case True
    then have "nat l - n = Suc (nat l - Suc n)"
      by linarith
    with True Cons.prems Cons.IH [of "Suc n" "results @ [v]"] show ?thesis
      by (simp add: underLimit_def pastOffset_def)
  next
    case False
    with Cons.prems show ?thesis
      by (simp add: underLimit_def pastOffset_def)
  qed
qed

lemma cursorLoop_offset_only:
  "cursorLoop None (Some off) xs n results = results @ drop (nat off - n) xs"
proof (induction xs arbitrary: n results)
  case Nil
  then show ?case by simp
next
  case (Cons v xs)
  show ?case
  proof (cases "off \<le> int n")
    case True
    with Cons.IH [of "Suc n" "results @ [v]"] show ?thesis
      by (simp add: underLimit_def pastOffset_def)
  next
    case False
    then have "nat off - n = Suc (nat off - Suc n)"
      by linarith
    with False Cons.IH [of "Suc n" results] show ?thesis
      by (auto simp: underLimit_def pastOffset_def)
  qed
qed

text \<open>
  C2 (the code departs from it): with offset \<open>o\<close> and limit \<open>l\<close>, \<open>getAll\<close> is to
  return the records at positions \<open>o, ..., min (o + l, N) - 1\<close> of the cursor's traversal.
  On the four notes \<open>a, b, c, d\<close>, offset 2 and limit 2 should give \<open>c, d\<close>; the loop
  stops after two records visited, both skipped, and returns nothing.
\<close>

theorem getAll_offset_limit_empty:
  "map_sum id (map id') (fst (getAll fourNotes notesC noOptions)) = Inr [''a'', ''b'', ''c'', ''d'']
   \<and> fst (getAll fourNotes notesC (noOptions\<lparr>limit := Some 2, offset := Some 2\<rparr>)) = Inr []"
  by (simp add: fourNotes_def store_eval)

subsection \<open>C4: the \<open>sync\<close> object of a patch\<close>

text \<open>
  C4 as stated fails: the patch below carries a \<open>sync\<close> object of version 10; the record
  returned and stored has version 2, the current version 1 plus one.
\<close>

theorem update_sync_counterexample:
  "map_sum id (version \<circ> sync) (fst (update oneNote notesC ''a'' patchWithSync)) = Inr 2
   \<and> map_option (version \<circ> sync)
        (os_get (notesStore (idb (snd (update oneNote notesC ''a'' patchWithSync)))) ''a'')
       = Some 2
   \<and> map_option version (p_sync patchWithSync) = Some 10"
  by (simp add: oneNote_def patchWithSync_def store_eval)

text \<open>
  C4, amended: for every existing record and every patch, with or without a \<open>sync\<close>
  object, the record that \<open>update\<close> returns and stores has the current record's \<open>sync\<close>
  with \<open>version\<close> incremented by one (a \<open>sync\<close> object in the patch is discarded), and
  its entity fields are the shallow merge of the patch over the current record.
\<close>

theorem update_sync_from_current:
  assumes "storeLens c" and "update w c k updates = (Inr r, w')"
  shows "\<exists>current. os_get (readStore c (idb w)) k = Some current
           \<and> sync r = (sync current)\<lparr>version := version (sync current) + 1\<rparr>
           \<and> body r = spread c (body current) (p_body updates)
           \<and> os_get (readStore c (idb w')) (id' r) = Some r"
  using assms by (rule update_stored)

theorem update_sync_from_current_witness:
  "storeLens notesC
   \<and> update oneNote notesC ''a'' patchWithSync
       = (Inr ((noteRecord ''a'' ''A'' ''x'')\<lparr>sync := freshSync\<lparr>version := 2\<rparr>\<rparr>),
          snd (update oneNote notesC ''a'' patchWithSync))
   \<and> (\<exists>current. os_get (readStore notesC (idb oneNote)) ''a'' = Some current
         \<and> sync ((noteRecord ''a'' ''A'' ''x'')\<lparr>sync := freshSync\<lparr>version := 2\<rparr>\<rparr>)
             = (sync current)\<lparr>version := version (sync current) + 1\<rparr>)"
proof -
  have h: "update oneNote notesC ''a'' patchWithSync
       = (Inr ((noteRecord ''a'' ''A'' ''x'')\<lparr>sync := freshSync\<lparr>version := 2\<rparr>\<rparr>),
          snd (update oneNote notesC ''a'' patchWithSync))"
    by (simp add: oneNote_def patchWithSync_def store_eval)
  from update_sync_from_current [OF storeLens_notesC h] storeLens_notesC h show ?thesis
    by blast
qed

subsection \<open>C6: versions count updates\<close>

text \<open>
  C6 as stated fails: \<open>update\<close> spreads the patch over the record it read, the \<open>id\<close>
  key included, and puts the result under the id it then carries. A note is created
  under the id \<open>u\<close>, and \<open>update('notes', 'u', {id: 'z'})\<close> succeeds: the record \<open>u\<close>
  still has version 1 after one successful update addressed to it, not 2. And where
  \<open>u\<close> has reached version 3 by two updates, \<open>update('notes', 'ux', {id: 'u'})\<close>
  replaces it with a record of version 2: its version has gone down.
\<close>

theorem version_counts_updates_counterexample:
  "map_sum id id' (fst (create (world [] [] []) notesC fieldsA)) = Inr ''u''
   \<and> map_sum id id'
         (fst (update (snd (create (world [] [] []) notesC fieldsA)) notesC ''u''
                 (patchWithId ''z'')))
       = Inr ''z''
   \<and> noteVersions (fst (history notesC (world [] [] [])
       [Create fieldsA, Update ''u'' (patchWithId ''z'')]))
     = [(''u'', 1), (''z'', 2)]
   \<and> snd (history notesC (world [] [] [])
            [Create fieldsA, Update ''u'' (patchWithId ''z'')]) ''u'' = 1
   \<and> noteVersions (fst (history notesC (world [] [] [])
         [Create fieldsA, Create fieldsA, Update ''u'' emptyPatch, Update ''u'' emptyPatch]))
     = [(''u'', 3), (''ux'', 1)]
   \<and> noteVersions (fst (history notesC (world [] [] [])
         [Create fieldsA, Create fieldsA, Update ''u'' emptyPatch, Update ''u'' emptyPatch,
          Update ''ux'' (patchWithId ''u'')]))
     = [(''u'', 2), (''ux'', 1)]"
  by code_simp

text \<open>
  C6, amended. A record that \<open>create\<close> returns has \<open>sync.version = 1\<close> and is the record
  stored under its id. A successful \<open>update\<close>, whatever the patch holds, returns a
  record whose version is exactly one more than that of the record it read under the id
  addressed, and stores it under the id it carries. When no patch carries an id other
  than the one its update is addressed to (no patch of the facade does), then after any
  sequence of create, update and delete requests on a collection that was empty, every
  record of the collection has the version \<open>1 + N\<close>, where \<open>N\<close> is the number of
  successful updates addressed to its id since it was created; and no such request makes
  the version of a record that was in the collection, and still is, smaller.
\<close>

theorem version_counts_updates:
  assumes "storeLens (c :: ('m, 'p) Collection)"
  shows "(create w c data = (Inr r, w1) \<longrightarrow>
            version (sync r) = 1 \<and> os_get (readStore c (idb w1)) (id' r) = Some r)
    \<and> (update wu c k u = (Inr r', w2) \<longrightarrow>
          (\<exists>current. os_get (readStore c (idb wu)) k = Some current
             \<and> version (sync r') = version (sync current) + 1)
          \<and> os_get (readStore c (idb w2)) (id' r') = Some r')
    \<and> (readStore c (idb w0) = [] \<and> (\<forall>q \<in> set qs. idKept q)
          \<and> history c w0 qs = (w', n) \<longrightarrow>
          (\<forall>x \<in> set (readStore c (idb w')). version (sync x) = 1 + int (n (id' x))))
    \<and> (idKept q \<and> served c (w3, n3) q = (w4, n4)
          \<and> os_get (readStore c (idb w3)) k' = Some x
          \<and> os_get (readStore c (idb w4)) k' = Some x' \<longrightarrow>
          version (sync x) \<le> version (sync x'))
    \<and> idKept (Update kf (toPartial f) :: ('m, 'p) request)"
proof -
  have 1: "create w c data = (Inr r, w1) \<longrightarrow>
            version (sync r) = 1 \<and> os_get (readStore c (idb w1)) (id' r) = Some r"
    using create_stored [OF assms] by blast
  have 2: "update wu c k u = (Inr r', w2) \<longrightarrow>
          (\<exists>current. os_get (readStore c (idb wu)) k = Some current
             \<and> version (sync r') = version (sync current) + 1)
          \<and> os_get (readStore c (idb w2)) (id' r') = Some r'"
  proof
    assume "update wu c k u = (Inr r', w2)"
    from update_stored [OF assms this] obtain current where
      "os_get (readStore c (idb wu)) k = Some current"
      "sync r' = (sync current)\<lparr>version := version (sync current) + 1\<rparr>"
      "os_get (readStore c (idb w2)) (id' r') = Some r'"
      by blast
    then show "(\<exists>current. os_get (readStore c (idb wu)) k = Some current
             \<and> version (sync r') = version (sync current) + 1)
          \<and> os_get (readStore c (idb w2)) (id' r') = Some r'"
      by simp
  qed
  have 3: "readStore c (idb w0) = [] \<and> (\<forall>q \<in> set qs. idKept q)
          \<and> history c w0 qs = (w', n) \<longrightarrow>
          (\<forall>x \<in> set (readStore c (idb w')). version (sync x) = 1 + int (n (id' x)))"
  proof
    assume h: "readStore c (idb w0) = [] \<and> (\<forall>q \<in> set qs. idKept q)
          \<and> history c w0 qs = (w', n)"
    then have f: "foldl (served c) (w0, \<lambda>_. 0) qs = (w', n)"
      by (simp add: history_def)
    from h have "\<forall>x \<in> set (readStore c (idb w0)). version (sync x) = 1 + int ((\<lambda>_. 0) (id' x))"
      by simp
    with h f history_counted [OF assms, of qs w0 "\<lambda>_. 0" w' n]
    show "\<forall>x \<in> set (readStore c (idb w')). version (sync x) = 1 + int (n (id' x))"
      by blast
  qed
  have 4: "idKept q \<and> served c (w3, n3) q = (w4, n4)
          \<and> os_get (readStore c (idb w3)) k' = Some x
          \<and> os_get (readStore c (idb w4)) k' = Some x' \<longrightarrow>
          version (sync x) \<le> version (sync x')"
    using served_version_mono [OF assms] by blast
  have 5: "idKept (Update kf (toPartial f) :: ('m, 'p) request)"
    by (simp add: idKept_def toPartial_def)
  from 1 2 3 4 5 show ?thesis
    by (intro conjI)
qed

theorem version_counts_updates_witness:
  "storeLens notesC
   \<and> create (world [] [] []) notesC fieldsA
       = (Inr (noteRecord ''u'' ''A'' ''x''), snd (create (world [] [] []) notesC fieldsA))
   \<and> version (sync (noteRecord ''u'' ''A'' ''x'')) = 1
   \<and> os_get (notesStore (idb (snd (create (world [] [] []) notesC fieldsA)))) ''u''
       = Some (noteRecord ''u'' ''A'' ''x'')
   \<and> update oneNote notesC ''a'' patchWithSync
       = (Inr ((noteRecord ''a'' ''A'' ''x'')\<lparr>sync := freshSync\<lparr>version := 2\<rparr>\<rparr>),
          snd (update oneNote notesC ''a'' patchWithSync))
   \<and> (\<exists>current. os_get (notesStore (idb oneNote)) ''a'' = Some current
         \<and> version (sync ((noteRecord ''a'' ''A'' ''x'')\<lparr>sync := freshSync\<lparr>version := 2\<rparr>\<rparr>))
             = version (sync current) + 1)
   \<and> notesStore (idb (world [] [] [])) = []
   \<and> list_all idKept
        [Create fieldsA, Create fieldsA, Update ''u'' patchWithSync, Update ''zz'' emptyPatch,
         Update ''u'' emptyPatch, Delete ''zz'', Update ''ux'' (patchWithId ''ux'')]
   \<and> noteVersions (fst (history notesC (world [] [] [])
        [Create fieldsA, Create fieldsA, Update ''u'' patchWithSync, Update ''zz'' emptyPatch,
         Update ''u'' emptyPatch, Delete ''zz'', Update ''ux'' (patchWithId ''ux'')]))
       = [(''u'', 3), (''ux'', 2)]
   \<and> list_all
        (\<lambda>x. version (sync x)
                = 1 + int (snd (history notesC (world [] [] [])
                     [Create fieldsA, Create fieldsA, Update ''u'' patchWithSync,
                      Update ''zz'' emptyPatch, Update ''u'' emptyPatch, Delete ''zz'',
                      Update ''ux'' (patchWithId ''ux'')]) (id' x)))
        (notesStore (idb (fst (history notesC (world [] [] [])
           [Create fieldsA, Create fieldsA, Update ''u'' patchWithSync, Update ''zz'' emptyPatch,
            Update ''u'' emptyPatch, Delete ''zz'', Update ''ux'' (patchWithId ''ux'')]))))
   \<and> idKept (Update ''a'' patchWithSync :: (NoteFields, PartialNoteFields) request)
   \<and> os_get (notesStore (idb (fst (served notesC (oneNote, \<lambda>_. 0) (Update ''a'' patchWithSync)))))
        ''a''
       = Some ((noteRecord ''a'' ''A'' ''x'')\<lparr>sync := freshSync\<lparr>version := 2\<rparr>\<rparr>)
   \<and> version (sync (noteRecord ''a'' ''A'' ''x''))
       \<le> version (sync ((noteRecord ''a'' ''A'' ''x'')\<lparr>sync := freshSync\<lparr>version := 2\<rparr>\<rparr>))"
proof -
  let ?qs = "[Create fieldsA, Create fieldsA, Update ''u'' patchWithSync,
              Update ''zz'' emptyPatch, Update ''u'' emptyPatch, Delete ''zz'',
              Update ''ux'' (patchWithId ''ux'')] :: (NoteFields, PartialNoteFields) request list"
  let ?q = "Update ''a'' patchWithSync :: (NoteFields, PartialNoteFields) request"
  let ?r2 = "(noteRecord ''a'' ''A'' ''x'')\<lparr>sync := freshSync\<lparr>version := 2\<rparr>\<rparr>"
  note claim = version_counts_updates [OF storeLens_notesC]
  have h1: "create (world [] [] []) notesC fieldsA
       = (Inr (noteRecord ''u'' ''A'' ''x''), snd (create (world [] [] []) notesC fieldsA))"
    by (simp add: fieldsA_def store_eval)
  from claim [THEN conjunct1, rule_format, OF h1]
  have c1: "version (sync (noteRecord ''u'' ''A'' ''x'')) = 1"
    "os_get (notesStore (idb (snd (create (world [] [] []) notesC fieldsA)))) ''u''
       = Some (noteRecord ''u'' ''A'' ''x'')"
    by (simp_all add: notesC_def noteRecord_def)
  have h2: "update oneNote notesC ''a'' patchWithSync
       = (Inr ?r2, snd (update oneNote notesC ''a'' patchWithSync))"
    by (simp add: oneNote_def patchWithSync_def store_eval)
  from claim [THEN conjunct2, THEN conjunct1, rule_format, OF h2]
  have c2: "\<exists>current. os_get (notesStore (idb oneNote)) ''a'' = Some current
         \<and> version (sync ?r2) = version (sync current) + 1"
    by (simp add: notesC_def)
  have e: "notesStore (idb (world [] [] [])) = []"
    by (simp add: world_def)
  have kept: "list_all idKept ?qs"
    by (simp add: idKept_def emptyPatch_def patchWithId_def patchWithSync_def)
  have h3: "readStore notesC (idb (world [] [] [])) = [] \<and> (\<forall>q \<in> set ?qs. idKept q)
      \<and> history notesC (world [] [] []) ?qs
          = (fst (history notesC (world [] [] []) ?qs),
             snd (history notesC (world [] [] []) ?qs))"
    using e kept unfolding list_all_iff by (simp add: notesC_def)
  from claim [THEN conjunct2, THEN conjunct2, THEN conjunct1, rule_format, OF h3]
  have c3: "list_all
        (\<lambda>x. version (sync x)
                = 1 + int (snd (history notesC (world [] [] []) ?qs) (id' x)))
        (notesStore (idb (fst (history notesC (world [] [] []) ?qs))))"
    unfolding list_all_iff by (simp add: notesC_def)
  have v: "noteVersions (fst (history notesC (world [] [] []) ?qs))
       = [(''u'', 3), (''ux'', 2)]"
    by code_simp
  have k4: "idKept ?q"
    by (simp add: idKept_def patchWithSync_def)
  have s4: "served notesC (oneNote, \<lambda>_. 0) ?q
       = (fst (served notesC (oneNote, \<lambda>_. 0) ?q), snd (served notesC (oneNote, \<lambda>_. 0) ?q))"
    by simp
  have b4: "os_get (readStore notesC (idb oneNote)) ''a'' = Some (noteRecord ''a'' ''A'' ''x'')"
    by (simp add: oneNote_def store_eval)
  have a4: "os_get (readStore notesC (idb (fst (served notesC (oneNote, \<lambda>_. 0) ?q)))) ''a''
       = Some ?r2"
    by (simp add: served_def oneNote_def patchWithSync_def store_eval)
  from claim [THEN conjunct2, THEN conjunct2, THEN conjunct2, THEN conjunct1, rule_format,
              OF conjI [OF k4 conjI [OF s4 conjI [OF b4 a4]]]]
  have c4: "version (sync (noteRecord ''a'' ''A'' ''x'')) \<le> version (sync ?r2)" .
  from a4 have a4': "os_get (notesStore (idb (fst (served notesC (oneNote, \<lambda>_. 0) ?q)))) ''a''
       = Some ?r2"
    by (simp add: notesC_def)
  from storeLens_notesC h1 c1 h2 c2 e kept v c3 k4 a4' c4 show ?thesis
    by (intro conjI)
qed

subsection \<open>C7: update of a missing id\<close>

text \<open>
  C7: for every collection of an opened store and every id absent from it, \<open>update\<close>
  fails with \<open>KEY_NOT_FOUND\<close> and leaves the world, every collection included, as it
  was.
\<close>

theorem update_missing_key:
  assumes "opened w" and "k \<notin> id' ` set (readStore c (idb w))"
  shows "update w c k updates = (Inl (StorageError KEY_NOT_FOUND), w)"
proof -
  from assms(2) have "os_get (readStore c (idb w)) k = None"
    by (simp add: os_get_None_iff)
  with assms(1) show ?thesis
    by (simp add: update_def)
qed

theorem update_missing_key_witness:
  "opened oneNote
   \<and> ''b'' \<notin> id' ` set (readStore notesC (idb oneNote))
   \<and> update oneNote notesC ''b'' patchWithSync = (Inl (StorageError KEY_NOT_FOUND), oneNote)"
proof -
  have h1: "opened oneNote"
    by (simp add: oneNote_def world_def)
  have h2: "''b'' \<notin> id' ` set (readStore notesC (idb oneNote))"
    by (simp add: oneNote_def world_def notesC_def noteRecord_def)
  from update_missing_key [OF h1 h2] h1 h2 show ?thesis
    by blast
qed

subsection \<open>C10: the defaults of \<open>createNote\<close>\<close>

text \<open>
  C10: the note that \<open>createNote\<close> returns and stores has \<open>tags = []\<close> when the input
  has no tags, \<open>backlinks = []\<close> when it has no backlinks, \<open>isArchived = false\<close> when
  the input's is missing or false, and the same for \<open>isPinned\<close>; the two flags are
  never stored as \<open>undefined\<close>.
\<close>

theorem createNote_defaults:
  assumes "createNote w noteData = (Inr note, w')"
  shows "(d_tags noteData = None \<longrightarrow> tags (body note) = [])
         \<and> (d_backlinks noteData = None \<longrightarrow> backlinks (body note) = [])
         \<and> (d_isArchived noteData \<noteq> Some True \<longrightarrow> isArchived (body note) = Some False)
         \<and> (d_isPinned noteData \<noteq> Some True \<longrightarrow> isPinned (body note) = Some False)
         \<and> isArchived (body note) \<noteq> None
         \<and> isPinned (body note) \<noteq> None
         \<and> os_get (notesStore (idb w')) (id' note) = Some note"
proof -
  from assms have c: "create w notesC
       \<lparr>title = d_title noteData, content = d_content noteData,
        tags = orEmpty (d_tags noteData), backlinks = orEmpty (d_backlinks noteData),
        attachments = d_attachments noteData,
        isArchived = Some (orFalse (d_isArchived noteData)),
        isPinned = Some (orFalse (d_isPinned noteData)),
        folderId = d_folderId noteData\<rparr> = (Inr note, w')"
    by (simp add: createNote_def)
  from create_stored [OF storeLens_notesC c]
  have b: "body note = \<lparr>title = d_title noteData, content = d_content noteData,
        tags = orEmpty (d_tags noteData), backlinks = orEmpty (d_backlinks noteData),
        attachments = d_attachments noteData,
        isArchived = Some (orFalse (d_isArchived noteData)),
        isPinned = Some (orFalse (d_isPinned noteData)),
        folderId = d_folderId noteData\<rparr>"
    and s: "os_get (readStore notesC (idb w')) (id' note) = Some note"
    by simp_all
  from s have "os_get (notesStore (idb w')) (id' note) = Some note"
    by (simp add: notesC_def)
  then show ?thesis
    by (auto simp: b orEmpty_def orFalse_def split: option.splits)
qed

theorem createNote_defaults_witness:
  "createNote (world [] [] []) (bareNote ''A'' ''x'')
     = (Inr (noteRecord ''u'' ''A'' ''x''),
        snd (createNote (world [] [] []) (bareNote ''A'' ''x'')))
   \<and> d_tags (bareNote ''A'' ''x'') = None
   \<and> d_backlinks (bareNote ''A'' ''x'') = None
   \<and> d_isArchived (bareNote ''A'' ''x'') \<noteq> Some True
   \<and> d_isPinned (bareNote ''A'' ''x'') \<noteq> Some True
   \<and> tags (body (noteRecord ''u'' ''A'' ''x'')) = []
   \<and> backlinks (body (noteRecord ''u'' ''A'' ''x'')) = []
   \<and> isArchived (body (noteRecord ''u'' ''A'' ''x'')) = Some False
   \<and> isPinned (body (noteRecord ''u'' ''A'' ''x'')) = Some False"
proof -
  have h: "createNote (world [] [] []) (bareNote ''A'' ''x'')
     = (Inr (noteRecord ''u'' ''A'' ''x''),
        snd (createNote (world [] [] []) (bareNote ''A'' ''x'')))"
    by (simp add: createNote_def bareNote_def orEmpty_def orFalse_def store_eval)
  have d: "d_tags (bareNote ''A'' ''x'') = None" "d_backlinks (bareNote ''A'' ''x'') = None"
    "d_isArchived (bareNote ''A'' ''x'') \<noteq> Some True"
    "d_isPinned (bareNote ''A'' ''x'') \<noteq> Some True"
    by (simp_all add: bareNote_def)
  from createNote_defaults [OF h] h d show ?thesis
    by blast
qed

section \<open>Claims about tags\<close>

subsection \<open>C3: uniqueness of tag names\<close>

text \<open>
  C3 as stated fails: \<open>createTag\<close> looks the name up as it is written. After
  \<open>createTag("foo")\<close>, the call \<open>createTag("Foo")\<close> creates a second record, and the
  store holds two tags whose names differ only in case.
\<close>

theorem createTag_case_counterexample:
  "map_sum id id' (fst (createTag (world [] [] []) (tagNamed ''foo''))) = Inr ''u''
   \<and> map_sum id id'
        (fst (createTag (snd (createTag (world [] [] []) (tagNamed ''foo''))) (tagNamed ''Foo'')))
       = Inr ''ux''
   \<and> map (name \<circ> body)
        (tagsStore (idb (snd (createTag (snd (createTag (world [] [] []) (tagNamed ''foo'')))
                                (tagNamed ''Foo'')))))
       = [''foo'', ''Foo'']
   \<and> toLowerCase ''foo'' = toLowerCase ''Foo''"
  by code_simp

text \<open>
  C3, amended: tag names are unique up to exact, case-sensitive equality. When a call of
  \<open>createTag\<close> has returned a tag, a second call with the same name, whatever its other
  fields, returns that same record and leaves the world as it is (no record is created);
  and in every world reached from an empty tag store no two tags have the same name.
\<close>

theorem createTag_exact_name_unique:
  assumes "createTag w d = (Inr t, w1)" and "name d' = name d" and "tagsReachable w2"
  shows "createTag w1 d' = (Inr t, w1)
         \<and> distinct (map (\<lambda>t. name (body t)) (tagsStore (idb w2)))"
proof -
  from assms(3) have "uniqueTagNames w2"
  proof (induction rule: tagsReachable.induct)
    case (noTags w)
    then show ?case by (simp add: uniqueTagNames_def)
  next
    case (afterCreateTag w d r w')
    then show ?case by (blast intro: createTag_tag_names)
  next
    case (afterUpdate w k u r w')
    then show ?case by (blast intro: update_tag_names)
  next
    case (afterDelete w k r w')
    then show ?case by (blast intro: delete_tag_names)
  next
    case (afterOther w w')
    then show ?case by (simp add: uniqueTagNames_def)
  qed
  with createTag_again [OF assms(1,2)] show ?thesis
    by (simp add: uniqueTagNames_def)
qed

theorem createTag_exact_name_unique_witness:
  "createTag (world [] [] []) (tagNamed ''foo'')
     = (Inr (tagRecord ''u'' ''foo''), snd (createTag (world [] [] []) (tagNamed ''foo'')))
   \<and> name ((tagNamed ''foo'')\<lparr>color := Some ''#ef4444''\<rparr>) = name (tagNamed ''foo'')
   \<and> tagsReachable (snd (createTag (world [] [] []) (tagNamed ''foo'')))
   \<and> createTag (snd (createTag (world [] [] []) (tagNamed ''foo'')))
        ((tagNamed ''foo'')\<lparr>color := Some ''#ef4444''\<rparr>)
       = (Inr (tagRecord ''u'' ''foo''), snd (createTag (world [] [] []) (tagNamed ''foo'')))
   \<and> distinct (map (\<lambda>t. name (body t))
                 (tagsStore (idb (snd (createTag (world [] [] []) (tagNamed ''foo''))))))"
proof -
  have h1: "createTag (world [] [] []) (tagNamed ''foo'')
     = (Inr (tagRecord ''u'' ''foo''), snd (createTag (world [] [] []) (tagNamed ''foo'')))"
    by (simp add: createTag_def orString_def orFalse_def store_eval)
  have h2: "name ((tagNamed ''foo'')\<lparr>color := Some ''#ef4444''\<rparr>) = name (tagNamed ''foo'')"
    by simp
  have "tagsStore (idb (world [] [] [])) = []"
    by (simp add: world_def)
  then have "tagsReachable (world [] [] [])"
    by (rule tagsReachable.noTags)
  then have h3: "tagsReachable (snd (createTag (world [] [] []) (tagNamed ''foo'')))"
    using h1 by (rule tagsReachable.afterCreateTag)
  from createTag_exact_name_unique [OF h1 h2 h3] h1 h2 h3 show ?thesis
    by blast
qed

subsection \<open>C8: tag sync\<close>



section \<open>Claims about backlinks\<close>

subsection \<open>C1: the teardown of \<open>syncBacklinksForNote\<close>\<close>

text \<open>
  C1 (the code departs from it): the teardown is to delete exactly the backlinks whose
  source is the note, and to leave a backlink in which the note is only the target as it
  is. \<open>removeBacklinksFromNote\<close> deletes what \<open>getBacklinksForNote\<close> returns, the
  backlinks of either direction (lemma \<open>removeBacklinksFromNote_both_directions\<close>):
  syncing note \<open>a\<close>, which has no links, deletes the backlink \<open>k1\<close> from \<open>b\<close> to
  \<open>a\<close>.
\<close>

theorem syncBacklinks_deletes_incoming:
  "map id' (backlinksStore (idb linkedNotes)) = [''k1'']
   \<and> map (sourceNoteId \<circ> body) (backlinksStore (idb linkedNotes)) = [''b'']
   \<and> map (targetNoteId \<circ> body) (backlinksStore (idb linkedNotes)) = [''a'']
   \<and> fst (syncBacklinksForNote linkedNotes ''a'' ''no links'') = Inr ()
   \<and> backlinksStore (idb (snd (syncBacklinksForNote linkedNotes ''a'' ''no links''))) = []"
  by code_simp

subsection \<open>C5: the backlinks of a note\<close>

text \<open>
  C5 (the code departs from it): \<open>getBacklinksForNote\<close> is to return each backlink
  that has the note as source or target exactly once. It appends the two index lookups
  (lemma \<open>getBacklinksForNote_eq\<close>): the backlink \<open>k1\<close> from \<open>a\<close> to \<open>a\<close>
  itself is returned twice.
\<close>

theorem getBacklinksForNote_self_link_twice:
  "map id' (backlinksStore (idb selfLinked)) = [''k1'']
   \<and> map (sourceNoteId \<circ> body) (backlinksStore (idb selfLinked)) = [''a'']
   \<and> map (targetNoteId \<circ> body) (backlinksStore (idb selfLinked)) = [''a'']
   \<and> map_sum id (map id') (fst (getBacklinksForNote selfLinked ''a'')) = Inr [''k1'', ''k1'']"
  by code_simp

subsection \<open>C9: rename propagation\<close>

text \<open>
  C9 (the code departs from it): the rename is to rewrite exactly the occurrences of the
  literal text \<open>[[oldTitle]]\<close>. The title is placed in the pattern unescaped, so in the
  title \<open>Why?\<close> the question mark makes the \<open>y\<close> optional: the link \<open>[[Why?]]\<close> of
  note \<open>b\<close> is not matched and stays, and the text \<open>[[wh]]\<close> of note \<open>c\<close>, which is no
  link to the title, is rewritten.
\<close>

theorem rename_title_read_as_pattern:
  "map id' (notesStore (idb questionNotes)) = [''a'', ''b'', ''c'']
   \<and> map (title \<circ> body) (notesStore (idb questionNotes)) = [''Why?'', ''B'', ''C'']
   \<and> map (content \<circ> body) (notesStore (idb questionNotes))
       = [''x'', ''see [[Why?]]'', ''see [[wh]]'']
   \<and> fst (updateBacklinksOnNoteRename questionNotes ''Why?'' ''Because'') = Inr ()
   \<and> map (content \<circ> body)
        (notesStore (idb (snd (updateBacklinksOnNoteRename questionNotes ''Why?'' ''Because''))))
       = [''x'', ''see [[Why?]]'', ''see [[Because]]'']"
  by code_simp

end
